theory Spec2Isabelle
  imports Main "HOL-Library.Word" "HOL-Library.AList"
begin

unbundle bit_operations_syntax

section \<open>Formulas: the expressions run by evalSafe\<close>

text \<open>
  \<^verbatim>\<open>evalSafe(expr, context)\<close> builds
  \<^verbatim>\<open>Function(...Object.keys(context), `return (${expr})`)\<close> and applies it to the values
  of the context. Both call sites pass the context \<^verbatim>\<open>{ data }\<close>, so the only name the
  formula has for the frame's bytes is \<^verbatim>\<open>data\<close> (and \<^verbatim>\<open>arguments[0]\<close>, the same array);
  every other identifier is looked up in the global scope of the host.

  The text of a formula is modelled after parsing: \<open>Malformed\<close> is a text that the
  \<^verbatim>\<open>Function\<close> constructor rejects (it throws a SyntaxError), \<open>Formula e\<close> one that parses
  to the expression \<open>e\<close>. Literals, identifiers, indexing and the bitwise operators are
  evaluated here, on the values on which they are exact. Every other form of expression
  (arithmetic, comparison, calls, ...) is \<open>Other_expr\<close>, and every other value is
  \<open>JOther\<close> (a fraction, an infinity, a string, a boolean, \<^verbatim>\<open>null\<close>, an object that the
  host holds) or \<open>JCreated\<close> (an object that the evaluation makes, such as an array
  literal): what they evaluate to, and what the operators of the fragment make of them,
  is the host's, a parameter of the model. A formula is an expression without side effects, whose value
  depends on the bytes only: it does not change the array it reads, and the host gives the
  same answer whenever it is asked.
\<close>

type_synonym byte = "8 word"

datatype js_exn =
    SyntaxError | ReferenceError string | TypeError | TransportError | NotFound string
  | OtherError nat

datatype jsval =
    JNum int                 \<comment> \<open>a Number holding an integer\<close>
  | JNaN
  | JUndefined
  | JData "byte list"        \<comment> \<open>the array of the frame's bytes\<close>
  | JArguments "byte list"   \<comment> \<open>the \<^verbatim>\<open>arguments\<close> object of the call, holding that array\<close>
  | JOther nat               \<comment> \<open>another value, named so that \<^verbatim>\<open>===\<close> is equality of names\<close>
  | JCreated nat             \<comment> \<open>an object made by the evaluation\<close>

datatype binop = Bit_xor | Bit_and | Bit_or | Shift_left | Shift_right

datatype expr =
    Lit "32 word"
  | Ident string
  | Index expr expr
  | BitXor expr expr
  | BitAnd expr expr
  | BitOr expr expr
  | Shl expr expr
  | Shr expr expr
  | Other_expr nat

datatype formula = Malformed | Formula expr

text \<open>
  The host: its global bindings other than \<^verbatim>\<open>undefined\<close> and \<^verbatim>\<open>NaN\<close>; the evaluation of
  an expression of another form on the frame's bytes; an operator of the fragment applied
  to operands of which one is another value; and \<^verbatim>\<open>base[key]\<close> where the base or the key
  is another value.
\<close>

record host =
  globals :: "string \<Rightarrow> jsval option"
  other_expr :: "nat \<Rightarrow> byte list \<Rightarrow> js_exn + jsval"
  other_binop :: "binop \<Rightarrow> jsval \<Rightarrow> jsval \<Rightarrow> js_exn + jsval"
  other_member :: "jsval \<Rightarrow> jsval \<Rightarrow> js_exn + jsval"

fun is_other :: "jsval \<Rightarrow> bool" where
  "is_other (JOther k) = True"
| "is_other (JCreated k) = True"
| "is_other v = False"

text \<open>The objects that exist only since the call of the formula: the \<^verbatim>\<open>arguments\<close>
  object, and what the formula has made.\<close>

fun created :: "jsval \<Rightarrow> bool" where
  "created (JArguments bs) = True"
| "created (JCreated k) = True"
| "created v = False"

text \<open>ToInt32. An array converts through its string: \<^verbatim>\<open>[]\<close> is 0, \<^verbatim>\<open>[b]\<close> is b, a longer
  one is NaN, hence 0; \<^verbatim>\<open>undefined\<close>, NaN and the arguments object are 0.\<close>

fun to_int32 :: "jsval \<Rightarrow> 32 word" where
  "to_int32 (JNum n) = word_of_int n"
| "to_int32 JNaN = 0"
| "to_int32 JUndefined = 0"
| "to_int32 (JData [b]) = ucast b"
| "to_int32 (JData bs) = 0"
| "to_int32 (JArguments bs) = 0"
| "to_int32 (JOther k) = 0"
| "to_int32 (JCreated k) = 0"

text \<open>The array index a value denotes as a property key, if any.\<close>

fun index_key :: "jsval \<Rightarrow> int option" where
  "index_key (JNum n) = Some n"
| "index_key (JData [b]) = Some (uint b)"
| "index_key v = None"

text \<open>\<^verbatim>\<open>base[key]\<close>: reading a property of \<^verbatim>\<open>undefined\<close> throws a TypeError; an element
  of the array out of range is \<^verbatim>\<open>undefined\<close>, and so is a property of a number under
  any of these keys; \<^verbatim>\<open>arguments[0]\<close> is the array.\<close>

fun get_index :: "host \<Rightarrow> jsval \<Rightarrow> jsval \<Rightarrow> js_exn + jsval" where
  "get_index G base key =
     (if is_other base \<or> is_other key then other_member G base key
      else case base of
        JUndefined \<Rightarrow> Inl TypeError
      | JData bs \<Rightarrow>
          (case index_key key of
             None \<Rightarrow> Inr JUndefined
           | Some i \<Rightarrow> if 0 \<le> i \<and> i < int (length bs) then Inr (JNum (uint (bs ! nat i)))
                       else Inr JUndefined)
      | JArguments bs \<Rightarrow> if index_key key = Some 0 then Inr (JData bs) else Inr JUndefined
      | _ \<Rightarrow> Inr JUndefined)"

fun int32_op :: "binop \<Rightarrow> 32 word \<Rightarrow> 32 word \<Rightarrow> 32 word" where
  "int32_op Bit_xor a b = a XOR b"
| "int32_op Bit_and a b = a AND b"
| "int32_op Bit_or a b = a OR b"
| "int32_op Shift_left a b = push_bit (unat (b AND 31)) a"
| "int32_op Shift_right a b = signed_drop_bit (unat (b AND 31)) a"

definition bitop :: "host \<Rightarrow> binop \<Rightarrow> jsval \<Rightarrow> jsval \<Rightarrow> js_exn + jsval" where
  "bitop G op a b =
     (if is_other a \<or> is_other b then other_binop G op a b
      else Inr (JNum (sint (int32_op op (to_int32 a) (to_int32 b)))))"

text \<open>Operands are evaluated left to right; the first exception ends the evaluation.\<close>

fun eval_expr :: "host \<Rightarrow> byte list \<Rightarrow> expr \<Rightarrow> js_exn + jsval" where
  "eval_expr G d (Lit w) = Inr (JNum (uint w))"
| "eval_expr G d (Ident x) =
     (if x = ''data'' then Inr (JData d)
      else if x = ''arguments'' then Inr (JArguments d)
      else if x = ''undefined'' then Inr JUndefined
      else if x = ''NaN'' then Inr JNaN
      else case globals G x of None \<Rightarrow> Inl (ReferenceError x) | Some v \<Rightarrow> Inr v)"
| "eval_expr G d (Index a i) =
     (case eval_expr G d a of Inl e \<Rightarrow> Inl e | Inr va \<Rightarrow>
      (case eval_expr G d i of Inl e \<Rightarrow> Inl e | Inr vi \<Rightarrow> get_index G va vi))"
| "eval_expr G d (BitXor a b) =
     (case eval_expr G d a of Inl e \<Rightarrow> Inl e | Inr va \<Rightarrow>
      (case eval_expr G d b of Inl e \<Rightarrow> Inl e | Inr vb \<Rightarrow> bitop G Bit_xor va vb))"
| "eval_expr G d (BitAnd a b) =
     (case eval_expr G d a of Inl e \<Rightarrow> Inl e | Inr va \<Rightarrow>
      (case eval_expr G d b of Inl e \<Rightarrow> Inl e | Inr vb \<Rightarrow> bitop G Bit_and va vb))"
| "eval_expr G d (BitOr a b) =
     (case eval_expr G d a of Inl e \<Rightarrow> Inl e | Inr va \<Rightarrow>
      (case eval_expr G d b of Inl e \<Rightarrow> Inl e | Inr vb \<Rightarrow> bitop G Bit_or va vb))"
| "eval_expr G d (Shl a b) =
     (case eval_expr G d a of Inl e \<Rightarrow> Inl e | Inr va \<Rightarrow>
      (case eval_expr G d b of Inl e \<Rightarrow> Inl e | Inr vb \<Rightarrow> bitop G Shift_left va vb))"
| "eval_expr G d (Shr a b) =
     (case eval_expr G d a of Inl e \<Rightarrow> Inl e | Inr va \<Rightarrow>
      (case eval_expr G d b of Inl e \<Rightarrow> Inl e | Inr vb \<Rightarrow> bitop G Shift_right va vb))"
| "eval_expr G d (Other_expr k) = other_expr G k d"

fun evalSafe :: "host \<Rightarrow> formula \<Rightarrow> byte list \<Rightarrow> js_exn + jsval" where
  "evalSafe G Malformed d = Inl SyntaxError"
| "evalSafe G (Formula e) d = eval_expr G d e"

section \<open>Frame markers\<close>

text \<open>
  \<^verbatim>\<open>frame.startByte\<close> and \<^verbatim>\<open>frame.endByte\<close> as authored: a JSON scalar (the string
  \<^verbatim>\<open>"none"\<close>, a string such as \<^verbatim>\<open>"0xAA"\<close>, or a number), an array of scalars, or absent.
  A JSON number is kept as an integer: a fractional one equals no byte, like an integer
  outside 0..255.
\<close>

datatype scalar = SNum int | SStr string

datatype byte_field = BScalar scalar | BArray "scalar list" | BAbsent

text \<open>What \<^verbatim>\<open>parseByteValue\<close> returns: a number, NaN (\<^verbatim>\<open>parseInt\<close> found no digit), the
  string itself when it has no \<^verbatim>\<open>0x\<close> prefix, or \<^verbatim>\<open>undefined\<close> for an absent field.\<close>

datatype pval = PNum int | PNaN | PStr string | PUndefined

datatype parsed_field = PScalar pval | PArray "pval list"

definition hex_digit :: "char \<Rightarrow> int option" where
  "hex_digit c =
     (let n = (of_char c :: nat) in
      if 48 \<le> n \<and> n \<le> 57 then Some (int n - 48)
      else if 97 \<le> n \<and> n \<le> 102 then Some (int n - 87)
      else if 65 \<le> n \<and> n \<le> 70 then Some (int n - 55)
      else None)"

text \<open>\<^verbatim>\<open>parseInt(v, 16)\<close> for a string that starts with \<^verbatim>\<open>0x\<close>: the prefix is dropped and
  the longest run of hexadecimal digits is read; \<open>None\<close> is NaN.\<close>

definition parseInt16 :: "string \<Rightarrow> int option" where
  "parseInt16 v =
     (let ds = takeWhile (\<lambda>c. hex_digit c \<noteq> None) (drop 2 v) in
      if ds = [] then None
      else Some (foldl (\<lambda>a c. case hex_digit c of Some k \<Rightarrow> 16 * a + k | None \<Rightarrow> a) 0 ds))"

fun parseByteValue :: "scalar \<Rightarrow> pval" where
  "parseByteValue (SStr v) =
     (if take 2 v = ''0x'' then (case parseInt16 v of Some n \<Rightarrow> PNum n | None \<Rightarrow> PNaN)
      else PStr v)"
| "parseByteValue (SNum n) = PNum n"

fun parseByteField :: "byte_field \<Rightarrow> parsed_field" where
  "parseByteField (BScalar v) =
     (if v = SStr ''none'' then PScalar (PStr ''none'') else PScalar (parseByteValue v))"
| "parseByteField (BArray vs) = PArray (map parseByteValue vs)"
| "parseByteField BAbsent = PScalar PUndefined"

text \<open>\<^verbatim>\<open>slice[i] === v\<close>: an index outside the slice reads \<^verbatim>\<open>undefined\<close>.\<close>

fun elem_eq :: "byte list \<Rightarrow> int \<Rightarrow> pval \<Rightarrow> bool" where
  "elem_eq sl i (PNum n) = (0 \<le> i \<and> i < int (length sl) \<and> uint (sl ! nat i) = n)"
| "elem_eq sl i PUndefined = (\<not> (0 \<le> i \<and> i < int (length sl)))"
| "elem_eq sl i PNaN = False"
| "elem_eq sl i (PStr v) = False"

text \<open>\<^verbatim>\<open>vs.every((v, k) => slice[i + k] === v)\<close>.\<close>

fun every_at :: "byte list \<Rightarrow> int \<Rightarrow> pval list \<Rightarrow> bool" where
  "every_at sl i [] = True"
| "every_at sl i (v # vs) = (elem_eq sl i v \<and> every_at sl (i + 1) vs)"

record frame_spec =
  frame_length :: nat
  startByte :: byte_field
  endByte :: byte_field

definition useStart :: "frame_spec \<Rightarrow> bool" where
  "useStart fr = (startByte fr \<noteq> BScalar (SStr ''none''))"

definition useEnd :: "frame_spec \<Rightarrow> bool" where
  "useEnd fr = (endByte fr \<noteq> BScalar (SStr ''none''))"

definition matchesStart :: "frame_spec \<Rightarrow> byte list \<Rightarrow> bool" where
  "matchesStart fr sl =
     (case parseByteField (startByte fr) of
        PArray vs \<Rightarrow> every_at sl 0 vs
      | PScalar v \<Rightarrow> if useStart fr then elem_eq sl 0 v else True)"

definition matchesEnd :: "frame_spec \<Rightarrow> byte list \<Rightarrow> bool" where
  "matchesEnd fr sl =
     (if useEnd fr then
        (case parseByteField (endByte fr) of
           PArray vs \<Rightarrow> every_at sl (int (frame_length fr) - int (length vs)) vs
         | PScalar v \<Rightarrow> elem_eq sl (int (frame_length fr) - 1) v)
      else True)"

section \<open>The session\<close>

text \<open>
  The fields of the class, and \<open>effects\<close>: what the session has done to the outside so
  far (callbacks invoked, promises resolved, console output, calls on the transport), in
  order. A subscribed callback is an opaque observer: it is named, its invocation is
  recorded, and it neither throws nor touches the session. The class \<^verbatim>\<open>PolluSensSerial\<close>
  is the case where \<open>onRawFrame\<close> is never set; \<^verbatim>\<open>PolluSens\<close> has the field.
  \<^verbatim>\<open>this.port\<close> is \<open>serial_port\<close> here (\<open>port\<close> is the descriptor's member below);
  handles, timers, callbacks and the resolvers queued by \<^verbatim>\<open>readNext\<close> are numbers that
  name them. \<^verbatim>\<open>frame.length\<close> is a natural number; the members of \<^verbatim>\<open>data\<close> are in the
  order of \<^verbatim>\<open>Object.entries\<close>.
\<close>

datatype field_meta = Meta_str formula | Meta_obj formula | Meta_null

record checksum_spec =
  cs_eval :: formula
  cs_compare :: formula

record config =
  cfg_frame :: frame_spec
  cfg_checksum :: checksum_spec
  cfg_data :: "(string \<times> field_meta) list"

type_synonym parsed = "(string \<times> jsval) list"

datatype message = Checksum_failed | Read_loop_error js_exn

datatype event =
    Console_error message
  | On_error nat message
  | Resolve nat parsed
  | On_data nat parsed
  | On_raw_frame nat "byte list"
  | Clear_interval nat
  | Reader_cancel nat
  | Reader_release_lock nat
  | Port_close nat

record session =
  serial_port :: "nat option"
  reader :: "nat option"
  buffer :: "byte list"
  commandInterval :: "nat option"
  readQueue :: "nat list"
  onData :: "nat option"
  onError :: "nat option"
  onRawFrame :: "nat option"
  effects :: "event list"

datatype 'a outcome = Threw js_exn | Returned 'a

definition emit :: "event \<Rightarrow> session \<Rightarrow> session" where
  "emit ev s = s\<lparr>effects := effects s @ [ev]\<rparr>"

definition handleError :: "message \<Rightarrow> session \<Rightarrow> session" where
  "handleError msg s =
     (let s1 = emit (Console_error msg) s in
      case onError s1 of Some cb \<Rightarrow> emit (On_error cb msg) s1 | None \<Rightarrow> s1)"

definition readNext :: "nat \<Rightarrow> session \<Rightarrow> session" where
  "readNext resolve s = s\<lparr>readQueue := readQueue s @ [resolve]\<rparr>"

text \<open>\<^verbatim>\<open>typeof meta === 'object' ? meta.value : meta\<close>, then \<^verbatim>\<open>evalSafe\<close>; \<^verbatim>\<open>null\<close> is an
  object too, and reading its \<^verbatim>\<open>value\<close> throws.\<close>

fun eval_field :: "host \<Rightarrow> field_meta \<Rightarrow> byte list \<Rightarrow> js_exn + jsval" where
  "eval_field G (Meta_str f) d = evalSafe G f d"
| "eval_field G (Meta_obj f) d = evalSafe G f d"
| "eval_field G Meta_null d = Inl TypeError"

text \<open>The loop over \<^verbatim>\<open>Object.entries(dataFields)\<close>: the first formula that throws ends it.\<close>

fun extract_fields :: "host \<Rightarrow> (string \<times> field_meta) list \<Rightarrow> byte list \<Rightarrow> js_exn + parsed" where
  "extract_fields G [] d = Inr []"
| "extract_fields G ((key, meta) # rest) d =
     (case eval_field G meta d of
        Inl e \<Rightarrow> Inl e
      | Inr v \<Rightarrow> (case extract_fields G rest d of Inl e \<Rightarrow> Inl e | Inr p \<Rightarrow> Inr ((key, v) # p)))"

text \<open>The delivery of a parsed reading: the oldest pending request, then the callback.\<close>

definition deliver :: "parsed \<Rightarrow> session \<Rightarrow> session" where
  "deliver p s =
     (let s1 = (case readQueue s of
                  [] \<Rightarrow> s
                | resolve # q \<Rightarrow> emit (Resolve resolve p) (s\<lparr>readQueue := q\<rparr>))
      in case onData s1 of Some cb \<Rightarrow> emit (On_data cb p) s1 | None \<Rightarrow> s1)"

text \<open>\<^verbatim>\<open>===\<close> between the results of two calls of \<^verbatim>\<open>evalSafe\<close>: numbers by value, except
  that NaN is equal to nothing, itself included; \<^verbatim>\<open>undefined\<close> with itself; the frame's
  array with itself; another value with the value of the same name. An object that one
  of the calls has made is not the object that the other has made.\<close>

definition strict_eq :: "jsval \<Rightarrow> jsval \<Rightarrow> bool" where
  "strict_eq a b = (a = b \<and> a \<noteq> JNaN \<and> \<not> created a)"

text \<open>\<^verbatim>\<open>const valid = evalSafe(checksum.eval, { data }) === evalSafe(checksum.compare, { data })\<close>.\<close>

definition frame_valid :: "host \<Rightarrow> config \<Rightarrow> byte list \<Rightarrow> js_exn + bool" where
  "frame_valid G cfg d =
     (case evalSafe G (cs_eval (cfg_checksum cfg)) d of
        Inl e \<Rightarrow> Inl e
      | Inr v1 \<Rightarrow>
          (case evalSafe G (cs_compare (cfg_checksum cfg)) d of
             Inl e \<Rightarrow> Inl e
           | Inr v2 \<Rightarrow> Inr (strict_eq v1 v2)))"

text \<open>The call of \<^verbatim>\<open>onRawFrame\<close> that \<^verbatim>\<open>PolluSens\<close> makes on a valid frame, before the
  fields are read.\<close>

definition announce_raw :: "byte list \<Rightarrow> session \<Rightarrow> session" where
  "announce_raw d s = (case onRawFrame s of Some cb \<Rightarrow> emit (On_raw_frame cb d) s | None \<Rightarrow> s)"

definition handleFrame :: "host \<Rightarrow> config \<Rightarrow> byte list \<Rightarrow> session \<Rightarrow> bool outcome \<times> session" where
  "handleFrame G cfg d s =
     (case frame_valid G cfg d of
        Inl e \<Rightarrow> (Threw e, s)
      | Inr valid \<Rightarrow>
          if valid then
            (case extract_fields G (cfg_data cfg) d of
               Inl e \<Rightarrow> (Threw e, announce_raw d s)
             | Inr p \<Rightarrow> (Returned True, deliver p (announce_raw d s)))
          else (Returned False, s))"

text \<open>One pass through the body of \<^verbatim>\<open>while (this.buffer.length >= frameLength)\<close>.\<close>

definition scan_body :: "host \<Rightarrow> config \<Rightarrow> session \<Rightarrow> unit outcome \<times> session" where
  "scan_body G cfg s =
     (let frameLength = frame_length (cfg_frame cfg);
          slice = take frameLength (buffer s)
      in if matchesStart (cfg_frame cfg) slice \<and> matchesEnd (cfg_frame cfg) slice then
           (case handleFrame G cfg slice (s\<lparr>buffer := drop frameLength (buffer s)\<rparr>) of
              (Threw e, s') \<Rightarrow> (Threw e, s')
            | (Returned ok, s') \<Rightarrow>
                (Returned (), if ok then s' else handleError Checksum_failed s'))
         else (Returned (), s\<lparr>buffer := tl (buffer s)\<rparr>))"

text \<open>The inner loop. With \<open>frame_length = 0\<close> its condition never fails, so it is a
  partial function: \<open>None\<close> is the loop that does not return.\<close>

partial_function (option) scan :: "host \<Rightarrow> config \<Rightarrow> session \<Rightarrow> (unit outcome \<times> session) option" where
  "scan G cfg s =
     (if frame_length (cfg_frame cfg) \<le> length (buffer s) then
        (case scan_body G cfg s of
           (Threw e, s') \<Rightarrow> Some (Threw e, s')
         | (Returned u, s') \<Rightarrow> scan G cfg s')
      else Some (Returned (), s))"

declare scan.simps [code]

text \<open>
  The outer loop, over what the successive \<^verbatim>\<open>await this.reader.read()\<close> give. An exception
  from anywhere inside is caught by the \<^verbatim>\<open>catch\<close> around the whole \<^verbatim>\<open>while (true)\<close>:
  it is reported and the loop is over. A list of reads that runs out leaves the loop
  suspended at the next read.
\<close>

datatype read_result = Chunk "byte list" | Done | Read_fault js_exn

datatype loop_status = Awaiting_read | Ended

fun loop :: "host \<Rightarrow> config \<Rightarrow> read_result list \<Rightarrow> session \<Rightarrow> (loop_status \<times> session) option" where
  "loop G cfg [] s = Some (Awaiting_read, s)"
| "loop G cfg (Done # rs) s = Some (Ended, s)"
| "loop G cfg (Read_fault e # rs) s = Some (Ended, handleError (Read_loop_error e) s)"
| "loop G cfg (Chunk v # rs) s =
     (case scan G cfg (s\<lparr>buffer := buffer s @ v\<rparr>) of
        None \<Rightarrow> None
      | Some (Threw e, s') \<Rightarrow> Some (Ended, handleError (Read_loop_error e) s')
      | Some (Returned u, s') \<Rightarrow> loop G cfg rs s')"

text \<open>
  \<^verbatim>\<open>disconnect\<close>. The transport is outside: \<open>cancel_ok\<close> says whether
  \<^verbatim>\<open>reader.cancel()\<close> resolves, so that \<^verbatim>\<open>reader.releaseLock()\<close> is called (a failure
  of either is swallowed by the empty \<^verbatim>\<open>catch\<close>), \<open>close_ok\<close> whether
  \<^verbatim>\<open>port.close()\<close> resolves (a failure propagates, and the port stays set). The events
  record the calls made. A timer handle is a positive number, hence truthy.
\<close>

definition disconnect :: "bool \<Rightarrow> bool \<Rightarrow> session \<Rightarrow> unit outcome \<times> session" where
  "disconnect cancel_ok close_ok s =
     (let s1 = (case commandInterval s of
                  Some t \<Rightarrow> (emit (Clear_interval t) s)\<lparr>commandInterval := None\<rparr>
                | None \<Rightarrow> s);
          s2 = (case reader s1 of
                  Some r \<Rightarrow>
                    (if cancel_ok then emit (Reader_release_lock r) (emit (Reader_cancel r) s1)
                     else emit (Reader_cancel r) s1)\<lparr>reader := None\<rparr>
                | None \<Rightarrow> s1)
      in case serial_port s2 of
           Some p \<Rightarrow>
             if close_ok then (Returned (), (emit (Port_close p) s2)\<lparr>serial_port := None\<rparr>)
             else (Threw TransportError, emit (Port_close p) s2)
         | None \<Rightarrow> (Returned (), s2))"

text \<open>\<^verbatim>\<open>PolluSens.disconnectAndCleanup(instance)\<close>; \<open>None\<close> is an argument that is not a
  \<^verbatim>\<open>PolluSens\<close>.\<close>

definition disconnectAndCleanup :: "bool \<Rightarrow> bool \<Rightarrow> session option \<Rightarrow> unit outcome \<times> session option" where
  "disconnectAndCleanup cancel_ok close_ok instance =
     (case instance of
        None \<Rightarrow> (Returned (), None)
      | Some s \<Rightarrow>
          (case disconnect cancel_ok close_ok s of
             (Threw e, s') \<Rightarrow> (Threw e, Some s')
           | (Returned u, s') \<Rightarrow>
               (Returned (),
                Some (s'\<lparr>onData := None, onRawFrame := None, onError := None,
                         readQueue := [], buffer := []\<rparr>))))"

text \<open>
  A run of the session as seen by the request queue: calls of \<^verbatim>\<open>readNext\<close> and readings
  that passed validation and extraction, in the order in which they happen.
\<close>

datatype step = Request nat | Reading parsed

fun run_step :: "step \<Rightarrow> session \<Rightarrow> session" where
  "run_step (Request resolve) s = readNext resolve s"
| "run_step (Reading p) s = deliver p s"

definition run_steps :: "step list \<Rightarrow> session \<Rightarrow> session" where
  "run_steps steps s = fold run_step steps s"

fun readings :: "step list \<Rightarrow> parsed list" where
  "readings [] = []"
| "readings (Request resolve # steps) = readings steps"
| "readings (Reading p # steps) = p # readings steps"

text \<open>The promises resolved, and the arguments of the calls of \<^verbatim>\<open>onData\<close>, in order.\<close>

fun resolutions :: "event list \<Rightarrow> (nat \<times> parsed) list" where
  "resolutions [] = []"
| "resolutions (Resolve resolve p # evs) = (resolve, p) # resolutions evs"
| "resolutions (ev # evs) = resolutions evs"

fun on_data_calls :: "event list \<Rightarrow> parsed list" where
  "on_data_calls [] = []"
| "on_data_calls (On_data cb p # evs) = p # on_data_calls evs"
| "on_data_calls (ev # evs) = on_data_calls evs"

section \<open>The descriptor resolver of loadConfig\<close>

text \<open>
  A raw entry of the document, and also what the resolver returns: a JSON object with the
  optional members below. A sub-object is the list of its members in the order of the
  document; an absent member and a \<^verbatim>\<open>null\<close> one are both \<open>None\<close>. Entries of
  \<^verbatim>\<open>rawSensors\<close> that are not objects are not modelled, and a sub-object has no member
  called \<^verbatim>\<open>name\<close>.
\<close>

datatype json = JS_str string | JS_num int | JS_obj "(string \<times> json) list"

type_synonym obj = "(string \<times> json) list"

record sensor =
  name :: "string option"
  inherits_from :: "string option"
  command :: "string option"
  send_cmd_period :: "int option"
  port :: "obj option"
  frame :: "obj option"
  checksum :: "obj option"
  data :: "obj option"

text \<open>
  \<^verbatim>\<open>nameMap\<close> is a plain object: \<^verbatim>\<open>nameMap[k]\<close> finds an own key, or else a member of
  its prototype chain. The assignment \<^verbatim>\<open>nameMap["__proto__"] = s\<close> stores no key: it
  makes \<open>s\<close> the prototype, so that the members of \<open>s\<close> come before those of
  \<^verbatim>\<open>Object.prototype\<close> in the chain.
\<close>

record name_map =
  own_entries :: "(string \<times> sensor) list"
  proto_entry :: "sensor option"

definition build_nameMap :: "sensor list \<Rightarrow> name_map" where
  "build_nameMap rawSensors =
     foldl (\<lambda>nameMap s. case name s of
                           None \<Rightarrow> nameMap
                         | Some n \<Rightarrow>
                             if n = [] then nameMap
                             else if n = ''__proto__'' then nameMap\<lparr>proto_entry := Some s\<rparr>
                             else nameMap\<lparr>own_entries := AList.update n s (own_entries nameMap)\<rparr>)
       \<lparr> own_entries = [], proto_entry = None \<rparr> rawSensors"

text \<open>What \<^verbatim>\<open>nameMap[k]\<close> gives to \<^verbatim>\<open>resolveInheritance\<close>: an entry; a truthy value that
  is not a named entry (a function, a string, a number, an object without a name), for
  which the recursive call returns \<^verbatim>\<open>null\<close>; or a falsy value, missing included.\<close>

datatype found = Entry sensor | Non_entry | Missing

definition object_prototype_members :: "string list" where
  "object_prototype_members =
     [''constructor'', ''__defineGetter__'', ''__defineSetter__'', ''hasOwnProperty'',
      ''__lookupGetter__'', ''__lookupSetter__'', ''isPrototypeOf'', ''propertyIsEnumerable'',
      ''toString'', ''valueOf'', ''__proto__'', ''toLocaleString'']"

definition as_base :: "bool \<Rightarrow> found" where
  "as_base truthy = (if truthy then Non_entry else Missing)"

definition prototype_member :: "string \<Rightarrow> found" where
  "prototype_member k = as_base (k \<in> set object_prototype_members)"

text \<open>The members of an entry that has become the prototype: a non-empty string, a
  number other than 0 and a sub-object are truthy.\<close>

definition member_truthy :: "sensor \<Rightarrow> string \<Rightarrow> bool" where
  "member_truthy p k =
     (if k = ''name'' then name p \<noteq> None \<and> name p \<noteq> Some []
      else if k = ''inherits_from'' then inherits_from p \<noteq> None \<and> inherits_from p \<noteq> Some []
      else if k = ''command'' then command p \<noteq> None \<and> command p \<noteq> Some []
      else if k = ''send_cmd_period'' then
        send_cmd_period p \<noteq> None \<and> send_cmd_period p \<noteq> Some 0
      else if k = ''port'' then port p \<noteq> None
      else if k = ''frame'' then frame p \<noteq> None
      else if k = ''checksum'' then checksum p \<noteq> None
      else data p \<noteq> None)"

definition proto_member :: "sensor \<Rightarrow> string \<Rightarrow> found" where
  "proto_member p k =
     (if k \<in> set [''name'', ''inherits_from'', ''command'', ''send_cmd_period'',
                    ''port'', ''frame'', ''checksum'', ''data'']
      then as_base (member_truthy p k)
      else prototype_member k)"

definition lookup_name :: "name_map \<Rightarrow> string \<Rightarrow> found" where
  "lookup_name nameMap k =
     (case map_of (own_entries nameMap) k of
        Some s \<Rightarrow> Entry s
      | None \<Rightarrow>
          (case proto_entry nameMap of
             None \<Rightarrow> prototype_member k
           | Some p \<Rightarrow> if k = ''__proto__'' then Entry p else proto_member p k))"

text \<open>
  The keys of an object are enumerated with the array indices first, in ascending order,
  and then the other keys in the order in which they were added. \<open>array_index\<close> reads a
  key as an array index: a decimal numeral without leading zero, below \<open>2^32 - 1\<close>.
\<close>

definition digit_of :: "char \<Rightarrow> nat option" where
  "digit_of c =
     (let n = (of_char c :: nat) in if 48 \<le> n \<and> n \<le> 57 then Some (n - 48) else None)"

definition array_index :: "string \<Rightarrow> nat option" where
  "array_index k =
     (if k = [] \<or> list_ex (\<lambda>c. digit_of c = None) k \<or> (hd k = CHR ''0'' \<and> k \<noteq> ''0'') then None
      else let n = foldl (\<lambda>a c. 10 * a + (case digit_of c of Some v \<Rightarrow> v | None \<Rightarrow> 0)) 0 k
           in if n < 2 ^ 32 - 1 then Some n else None)"

fun insert_index :: "nat \<Rightarrow> string \<times> json \<Rightarrow> obj \<Rightarrow> obj" where
  "insert_index i kv [] = [kv]"
| "insert_index i kv ((k', v') # rest) =
     (case array_index k' of
        None \<Rightarrow> kv # (k', v') # rest
      | Some j \<Rightarrow> if j < i then (k', v') # insert_index i kv rest else kv # (k', v') # rest)"

text \<open>\<^verbatim>\<open>o[k] = v\<close> on an object literal under construction.\<close>

definition obj_set :: "string \<Rightarrow> json \<Rightarrow> obj \<Rightarrow> obj" where
  "obj_set k v al =
     (if map_of al k \<noteq> None then AList.update k v al
      else case array_index k of
        None \<Rightarrow> al @ [(k, v)]
      | Some i \<Rightarrow> insert_index i (k, v) al)"

text \<open>\<^verbatim>\<open>{ ...base, ...(own || {}) }\<close>: the members of the base are copied in, then those of
  the entry; a key of the entry that the base has keeps the base's place.\<close>

definition spread :: "obj option \<Rightarrow> obj option \<Rightarrow> obj" where
  "spread base own =
     fold (\<lambda>(k, v). obj_set k v) (case own of None \<Rightarrow> [] | Some c \<Rightarrow> c)
       (fold (\<lambda>(k, v). obj_set k v) (case base of None \<Rightarrow> [] | Some b \<Rightarrow> b) [])"

text \<open>\<^verbatim>\<open>a ?? b\<close>.\<close>

definition nullish :: "'a option \<Rightarrow> 'a option \<Rightarrow> 'a option" where
  "nullish a b = (case a of Some v \<Rightarrow> Some v | None \<Rightarrow> b)"

text \<open>The object literal that \<^verbatim>\<open>resolveInheritance\<close> returns for an entry and its
  resolved base.\<close>

definition merged :: "sensor \<Rightarrow> sensor \<Rightarrow> sensor" where
  "merged s resolvedBase =
     \<lparr> name = name s,
       inherits_from = None,
       command = nullish (command s) (command resolvedBase),
       send_cmd_period = nullish (send_cmd_period s) (send_cmd_period resolvedBase),
       port = Some (spread (port resolvedBase) (port s)),
       frame = Some (spread (frame resolvedBase) (frame s)),
       checksum = Some (spread (checksum resolvedBase) (checksum s)),
       data = Some (spread (data resolvedBase) (data s)) \<rparr>"

text \<open>
  The second parameter of \<^verbatim>\<open>resolveInheritance(sensor, stack = [])\<close> takes its default only
  when the caller passes nothing. \<^verbatim>\<open>rawSensors.map(resolveInheritance)\<close> passes the index of
  the element, a number, and a number has no \<^verbatim>\<open>includes\<close>: \<^verbatim>\<open>stack.includes(...)\<close>
  throws a TypeError. The recursive call passes an array.
\<close>

datatype stack_arg = Names "string list" | Array_index nat

datatype warning = Circular_inheritance "string list" | Base_not_found string

fun stack_names :: "stack_arg \<Rightarrow> string set" where
  "stack_names (Names st) = set st"
| "stack_names (Array_index i) = {}"

definition entry_names :: "name_map \<Rightarrow> string set" where
  "entry_names nameMap =
     (\<Union>(k, v)\<in>set (own_entries nameMap). set_option (name v)) \<union>
     (case proto_entry nameMap of None \<Rightarrow> {} | Some p \<Rightarrow> set_option (name p))"

function resolveInheritance ::
  "name_map \<Rightarrow> sensor \<Rightarrow> stack_arg \<Rightarrow> warning list \<times> (js_exn + sensor option)" where
  "resolveInheritance nameMap s stack =
     (case name s of
        None \<Rightarrow> ([], Inr None)
      | Some n \<Rightarrow>
          if n = [] then ([], Inr None)
          else (case inherits_from s of
             None \<Rightarrow> ([], Inr (Some s))
           | Some b \<Rightarrow>
               if b = [] then ([], Inr (Some s))
               else (case stack of
                  Array_index i \<Rightarrow> ([], Inl TypeError)
                | Names st \<Rightarrow>
                    if n \<in> set st then ([Circular_inheritance (st @ [n])], Inr (Some s))
                    else (case lookup_name nameMap b of
                       Missing \<Rightarrow> ([Base_not_found b], Inr (Some s))
                     | Non_entry \<Rightarrow> ([], Inl TypeError)
                     | Entry base \<Rightarrow>
                         (case resolveInheritance nameMap base (Names (st @ [n])) of
                            (ws, Inl e) \<Rightarrow> (ws, Inl e)
                          | (ws, Inr None) \<Rightarrow> (ws, Inl TypeError)
                          | (ws, Inr (Some resolvedBase)) \<Rightarrow>
                              (ws, Inr (Some (merged s resolvedBase))))))))"
  by pat_completeness auto
termination
proof (relation "measure (\<lambda>(nameMap, s, stack).
    card ((entry_names nameMap \<union> set_option (name s)) - stack_names stack))")
  show "wf (measure (\<lambda>(nameMap, s, stack).
    card ((entry_names nameMap \<union> set_option (name s)) - stack_names stack)))"
    by simp
next
  fix nameMap :: name_map and s :: sensor and stack n b st base
  assume n: "name s = Some n" and st: "stack = Names st" and nin: "n \<notin> set st"
    and base: "lookup_name nameMap b = Entry base"
  let ?N = "entry_names nameMap"
  have fin: "finite ?N"
    by (auto simp: entry_names_def split: option.splits)
  have proto: "prototype_member k \<noteq> Entry base" for k
    by (simp add: prototype_member_def as_base_def)
  have member: "proto_member p k \<noteq> Entry base" for p k
    using proto [of k] by (simp add: proto_member_def as_base_def del: set_simps)
  have "(b, base) \<in> set (own_entries nameMap) \<or> proto_entry nameMap = Some base"
  proof (cases "map_of (own_entries nameMap) b")
    case (Some e)
    then show ?thesis
      using base by (auto simp: lookup_name_def dest: map_of_SomeD)
  next
    case None
    then show ?thesis
      using base proto member
      by (cases "proto_entry nameMap") (auto simp: lookup_name_def split: if_splits)
  qed
  then have sub: "set_option (name base) \<subseteq> ?N"
    by (auto simp: entry_names_def)
  have "(?N \<union> set_option (name base)) - set (st @ [n]) \<subset> (?N \<union> {n}) - set st"
    using sub nin by auto
  then have "card ((?N \<union> set_option (name base)) - set (st @ [n])) < card ((?N \<union> {n}) - set st)"
    using fin by (intro psubset_card_mono) auto
  then show "((nameMap, base, Names (st @ [n])), (nameMap, s, stack))
      \<in> measure (\<lambda>(nameMap, s, stack).
          card ((entry_names nameMap \<union> set_option (name s)) - stack_names stack))"
    using n st by simp
qed

text \<open>\<^verbatim>\<open>rawSensors.map(resolveInheritance)\<close>: the callback receives the element and its
  index; the first exception ends the map.\<close>

fun resolve_each ::
  "name_map \<Rightarrow> nat \<Rightarrow> sensor list \<Rightarrow> warning list \<times> (js_exn + sensor option list)" where
  "resolve_each nameMap i [] = ([], Inr [])"
| "resolve_each nameMap i (s # rest) =
     (case resolveInheritance nameMap s (Array_index i) of
        (ws, Inl e) \<Rightarrow> (ws, Inl e)
      | (ws, Inr r) \<Rightarrow>
          (case resolve_each nameMap (Suc i) rest of
             (ws', Inl e) \<Rightarrow> (ws @ ws', Inl e)
           | (ws', Inr rs) \<Rightarrow> (ws @ ws', Inr (r # rs))))"

text \<open>\<^verbatim>\<open>loadConfig\<close> from \<^verbatim>\<open>rawSensors\<close> on (the fetch and the JSON parser are outside):
  the map, \<^verbatim>\<open>filter(Boolean)\<close>, and the selection by \<^verbatim>\<open>sensorName\<close>.\<close>

definition loadConfig :: "sensor list \<Rightarrow> string option \<Rightarrow> warning list \<times> (js_exn + sensor list)" where
  "loadConfig rawSensors sensorName =
     (case resolve_each (build_nameMap rawSensors) 0 rawSensors of
        (ws, Inl e) \<Rightarrow> (ws, Inl e)
      | (ws, Inr rs) \<Rightarrow>
          (let sensors = List.map_filter id rs in
           case sensorName of
             None \<Rightarrow> (ws, Inr sensors)
           | Some wanted \<Rightarrow>
               if wanted = [] then (ws, Inr sensors)
               else (case find (\<lambda>s. name s = Some wanted) sensors of
                  None \<Rightarrow> (ws, Inl (NotFound wanted))
                | Some match \<Rightarrow> (ws, Inr [match]))))"

section \<open>Example descriptors, streams and sessions\<close>

text \<open>The scenario of the specification: frame length 5, start byte \<^verbatim>\<open>0xAA\<close>, no end
  marker. \<open>scenario_window\<close> has the formulas as the specification writes them, over
  \<^verbatim>\<open>window\<close>; \<open>scenario_data\<close> has the same formulas over \<^verbatim>\<open>data\<close>;
  \<open>scenario_payload\<close> leaves the start byte out of the checksum.\<close>

abbreviation byte_at :: "string \<Rightarrow> 32 word \<Rightarrow> expr" where
  "byte_at x i \<equiv> Index (Ident x) (Lit i)"

definition scenario_frame :: frame_spec where
  "scenario_frame =
     \<lparr> frame_length = 5, startByte = BScalar (SStr ''0xAA''), endByte = BScalar (SStr ''none'') \<rparr>"

definition scenario_window :: config where
  "scenario_window =
     \<lparr> cfg_frame = scenario_frame,
       cfg_checksum =
         \<lparr> cs_eval = Formula (byte_at ''window'' 4),
           cs_compare = Formula (BitXor (BitXor (BitXor (byte_at ''window'' 0) (byte_at ''window'' 1))
                                     (byte_at ''window'' 2)) (byte_at ''window'' 3)) \<rparr>,
       cfg_data = [(''temp'', Meta_str (Formula (byte_at ''window'' 1)))] \<rparr>"

definition scenario_data :: config where
  "scenario_data =
     \<lparr> cfg_frame = scenario_frame,
       cfg_checksum =
         \<lparr> cs_eval = Formula (byte_at ''data'' 4),
           cs_compare = Formula (BitXor (BitXor (BitXor (byte_at ''data'' 0) (byte_at ''data'' 1))
                                     (byte_at ''data'' 2)) (byte_at ''data'' 3)) \<rparr>,
       cfg_data = [(''temp'', Meta_str (Formula (byte_at ''data'' 1)))] \<rparr>"

definition scenario_payload :: config where
  "scenario_payload =
     \<lparr> cfg_frame = scenario_frame,
       cfg_checksum =
         \<lparr> cs_eval = Formula (byte_at ''data'' 4),
           cs_compare = Formula (BitXor (BitXor (byte_at ''data'' 1) (byte_at ''data'' 2))
                                     (byte_at ''data'' 3)) \<rparr>,
       cfg_data = [(''temp'', Meta_str (Formula (byte_at ''data'' 1)))] \<rparr>"

text \<open>Two descriptors with a formula that does not parse: the checksum's, and a field's.\<close>

definition broken_checksum :: config where
  "broken_checksum =
     scenario_payload\<lparr>cfg_checksum :=
       \<lparr> cs_eval = Malformed, cs_compare = Formula (byte_at ''data'' 4) \<rparr>\<rparr>"

definition broken_field :: config where
  "broken_field =
     scenario_payload\<lparr>cfg_data :=
       [(''temp'', Meta_str (Formula (byte_at ''data'' 1))), (''hum'', Meta_obj Malformed)]\<rparr>"


text \<open>A descriptor of two-byte frames that start with \<^verbatim>\<open>0xAA\<close>, every window valid.\<close>

definition pair_frames :: config where
  "pair_frames =
     \<lparr> cfg_frame = \<lparr> frame_length = 2, startByte = BScalar (SNum 170),
                     endByte = BScalar (SStr ''none'') \<rparr>,
       cfg_checksum = \<lparr> cs_eval = Formula (Lit 0), cs_compare = Formula (Lit 0) \<rparr>,
       cfg_data = [(''b'', Meta_str (Formula (byte_at ''data'' 1)))] \<rparr>"

definition scenario_stream :: "byte list" where
  "scenario_stream = [0xAA, 0x10, 0x00, 0x00, 0x10, 0xFF, 0xAA, 0x05, 0x00, 0x00, 0x05]"

text \<open>A connected session with one pending request (7), a data callback (1) and an error
  callback (2).\<close>

definition listening :: session where
  "listening =
     \<lparr> serial_port = Some 0, reader = Some 0, buffer = [], commandInterval = None,
       readQueue = [7], onData = Some 1, onError = Some 2, onRawFrame = None, effects = [] \<rparr>"

text \<open>A host without globals, and a browser whose \<^verbatim>\<open>window\<close> (the value 0) has no
  sub-frames: its members under these keys are \<^verbatim>\<open>undefined\<close>.\<close>

definition no_globals :: host where
  "no_globals =
     \<lparr> globals = (\<lambda>x. None), other_expr = (\<lambda>k d. Inr JUndefined),
       other_binop = (\<lambda>op a b. Inr JNaN), other_member = (\<lambda>base key. Inr JUndefined) \<rparr>"

definition browser_globals :: host where
  "browser_globals =
     \<lparr> globals = (\<lambda>x. if x = ''window'' then Some (JOther 0) else None),
       other_expr = (\<lambda>k d. Inr JUndefined),
       other_binop = (\<lambda>op a b. Inr JNaN), other_member = (\<lambda>base key. Inr JUndefined) \<rparr>"

text \<open>Raw entries: a cycle of two, and a parent with a child that overrides the frame
  length only.\<close>

definition cyc_a :: sensor where
  "cyc_a =
     \<lparr> name = Some ''A'', inherits_from = Some ''B'', command = Some ''01 03'',
       send_cmd_period = None, port = None, frame = Some [(''length'', JS_num 5)],
       checksum = None, data = None \<rparr>"

definition cyc_b :: sensor where
  "cyc_b =
     \<lparr> name = Some ''B'', inherits_from = Some ''A'', command = None,
       send_cmd_period = Some 2, port = None, frame = None,
       checksum = None, data = Some [(''temp'', JS_str ''data[1]'')] \<rparr>"

definition parent :: sensor where
  "parent =
     \<lparr> name = Some ''P'', inherits_from = None, command = Some ''01 03'',
       send_cmd_period = Some 2, port = Some [(''baudRate'', JS_num 9600)],
       frame = Some [(''length'', JS_num 5), (''startByte'', JS_str ''0xAA''),
                     (''endByte'', JS_str ''none'')],
       checksum = Some [(''eval'', JS_str ''data[4]''),
                        (''compare'', JS_str ''data[1]^data[2]^data[3]'')],
       data = Some [(''temp'', JS_str ''data[1]''), (''hum'', JS_str ''data[2]'')] \<rparr>"

definition child :: sensor where
  "child =
     \<lparr> name = Some ''C'', inherits_from = Some ''P'', command = None,
       send_cmd_period = None, port = None, frame = Some [(''length'', JS_num 7)],
       checksum = None, data = None \<rparr>"



declare resolveInheritance.simps [simp del]

section \<open>The frame scan\<close>

lemmas run_defs =
  scan.simps scan_body_def matchesStart_def matchesEnd_def useStart_def useEnd_def
  parseInt16_def hex_digit_def handleFrame_def frame_valid_def strict_eq_def bitop_def
  announce_raw_def deliver_def handleError_def emit_def Let_def

lemmas example_defs =
  scenario_frame_def scenario_payload_def scenario_stream_def listening_def no_globals_def

lemma buffer_emit [simp]: "buffer (emit ev s) = buffer s"
  by (simp add: emit_def)

lemma buffer_handleError [simp]: "buffer (handleError m s) = buffer s"
  by (simp add: handleError_def Let_def split: option.splits)

lemma buffer_announce_raw [simp]: "buffer (announce_raw d s) = buffer s"
  by (simp add: announce_raw_def split: option.splits)

lemma buffer_deliver [simp]: "buffer (deliver p s) = buffer s"
  by (simp add: deliver_def Let_def split: option.splits list.splits)

lemma buffer_handleFrame [simp]: "buffer (snd (handleFrame G cfg d s)) = buffer s"
  by (simp add: handleFrame_def split: sum.splits)

text \<open>What one pass of the loop body leaves in the buffer, whatever the frame handler did.\<close>

lemma buffer_scan_body:
  "buffer (snd (scan_body G cfg s)) =
     (if matchesStart (cfg_frame cfg) (take (frame_length (cfg_frame cfg)) (buffer s)) \<and>
         matchesEnd (cfg_frame cfg) (take (frame_length (cfg_frame cfg)) (buffer s))
      then drop (frame_length (cfg_frame cfg)) (buffer s) else drop 1 (buffer s))"
proof -
  have "buffer (snd (case handleFrame G cfg d t of
           (Threw e, s') \<Rightarrow> (Threw e, s')
         | (Returned ok, s') \<Rightarrow> (Returned (), if ok then s' else handleError Checksum_failed s'))) = buffer t" for d t
    using buffer_handleFrame [of G cfg d t]
    by (cases "handleFrame G cfg d t") (auto split: outcome.splits)
  then show ?thesis
    by (simp add: scan_body_def Let_def drop_Suc)
qed

lemma scan_body_shrinks:
  assumes "1 \<le> frame_length (cfg_frame cfg)" "frame_length (cfg_frame cfg) \<le> length (buffer s)"
  shows "length (buffer (snd (scan_body G cfg s))) < length (buffer s)"
  using assms by (auto simp: buffer_scan_body)

lemma scan_body_match:
  assumes "matchesStart (cfg_frame cfg) (take (frame_length (cfg_frame cfg)) (buffer s))"
    and "matchesEnd (cfg_frame cfg) (take (frame_length (cfg_frame cfg)) (buffer s))"
  shows "scan_body G cfg s =
     (case handleFrame G cfg (take (frame_length (cfg_frame cfg)) (buffer s))
             (s\<lparr>buffer := drop (frame_length (cfg_frame cfg)) (buffer s)\<rparr>) of
        (Threw e, s') \<Rightarrow> (Threw e, s')
      | (Returned ok, s') \<Rightarrow> (Returned (), if ok then s' else handleError Checksum_failed s'))"
  using assms by (simp add: scan_body_def Let_def)

lemma scan_body_mismatch:
  assumes "\<not> (matchesStart (cfg_frame cfg) (take (frame_length (cfg_frame cfg)) (buffer s)) \<and>
     matchesEnd (cfg_frame cfg) (take (frame_length (cfg_frame cfg)) (buffer s)))"
  shows "scan_body G cfg s = (Returned (), s\<lparr>buffer := tl (buffer s)\<rparr>)"
  using assms by (auto simp add: scan_body_def Let_def)

lemma scan_short:
  "length (buffer s) < frame_length (cfg_frame cfg) \<Longrightarrow> scan G cfg s = Some (Returned (), s)"
  by (subst scan.simps) simp

lemma scan_step:
  assumes "frame_length (cfg_frame cfg) \<le> length (buffer s)"
    and "scan_body G cfg s = (Returned u, s')"
  shows "scan G cfg s = scan G cfg s'"
  using assms by (subst scan.simps) simp

lemma scan_throw:
  assumes "frame_length (cfg_frame cfg) \<le> length (buffer s)"
    and "scan_body G cfg s = (Threw e, s')"
  shows "scan G cfg s = Some (Threw e, s')"
  using assms by (subst scan.simps) simp

text \<open>With a positive frame length the inner loop returns: each pass shortens the buffer.\<close>

lemma scan_returns:
  assumes "1 \<le> frame_length (cfg_frame cfg)"
  shows "\<exists>r. scan G cfg s = Some r"
proof (induction "length (buffer s)" arbitrary: s rule: less_induct)
  case less
  show ?case
  proof (cases "frame_length (cfg_frame cfg) \<le> length (buffer s)")
    case False
    then show ?thesis by (subst scan.simps) simp
  next
    case True
    obtain oc s' where b: "scan_body G cfg s = (oc, s')"
      by (cases "scan_body G cfg s")
    show ?thesis
    proof (cases oc)
      case (Threw e)
      with True b show ?thesis by (subst scan.simps) simp
    next
      case (Returned u)
      have "length (buffer s') < length (buffer s)"
        using scan_body_shrinks [OF assms True, of G] b by simp
      then obtain r where "scan G cfg s' = Some r"
        using less by blast
      with True b Returned show ?thesis by (subst scan.simps) simp
    qed
  qed
qed

lemma loop_returns:
  assumes "1 \<le> frame_length (cfg_frame cfg)"
  shows "\<exists>r. loop G cfg rs s = Some r"
proof (induction rs arbitrary: s)
  case Nil
  show ?case by simp
next
  case (Cons x rs)
  show ?case
  proof (cases x)
    case (Chunk v)
    obtain oc s' where "scan G cfg (s\<lparr>buffer := buffer s @ v\<rparr>) = Some (oc, s')"
      using scan_returns [OF assms, of G "s\<lparr>buffer := buffer s @ v\<rparr>"] by auto
    then show ?thesis
      using Chunk Cons [of s'] by (cases oc) simp_all
  qed simp_all
qed

text \<open>
  C10. For a descriptor with frame length at least 1, the inner frame-scan loop returns on
  every buffer, and so does the read loop on every finite list of reads. Each pass of the
  body that runs (buffer at least one frame long) leaves a strictly shorter buffer: the
  buffer without its first \<open>frame_length\<close> bytes when both markers match, without its
  first byte otherwise.
\<close>

theorem scan_terminates:
  assumes "1 \<le> frame_length (cfg_frame cfg)"
  shows "(\<exists>r. scan G cfg s = Some r) \<and> (\<exists>r. loop G cfg rs s = Some r) \<and>
     (frame_length (cfg_frame cfg) \<le> length (buffer s) \<longrightarrow>
        length (buffer (snd (scan_body G cfg s))) < length (buffer s) \<and>
        buffer (snd (scan_body G cfg s)) =
          (if matchesStart (cfg_frame cfg) (take (frame_length (cfg_frame cfg)) (buffer s)) \<and>
              matchesEnd (cfg_frame cfg) (take (frame_length (cfg_frame cfg)) (buffer s))
           then drop (frame_length (cfg_frame cfg)) (buffer s) else drop 1 (buffer s)))"
  using scan_returns [OF assms, of G s] loop_returns [OF assms, of G rs s]
    scan_body_shrinks [OF assms, of s G] buffer_scan_body [of G cfg s] by blast

theorem scan_terminates_witness:
  "1 \<le> frame_length (cfg_frame scenario_payload) \<and>
   (\<exists>r. scan no_globals scenario_payload (listening\<lparr>buffer := scenario_stream\<rparr>) = Some r) \<and>
   (\<exists>r. loop no_globals scenario_payload [Chunk scenario_stream, Done]
           (listening\<lparr>buffer := scenario_stream\<rparr>) = Some r) \<and>
   frame_length (cfg_frame scenario_payload) \<le> length scenario_stream \<and>
   length (buffer (snd (scan_body no_globals scenario_payload (listening\<lparr>buffer := scenario_stream\<rparr>))))
     < length scenario_stream \<and>
   buffer (snd (scan_body no_globals scenario_payload (listening\<lparr>buffer := scenario_stream\<rparr>))) =
     [0xFF, 0xAA, 0x05, 0x00, 0x00, 0x05]"
proof -
  let ?s = "listening\<lparr>buffer := scenario_stream\<rparr>"
  have pos: "1 \<le> frame_length (cfg_frame scenario_payload)"
    by (simp add: example_defs)
  have b: "buffer ?s = scenario_stream"
    by simp
  have len: "frame_length (cfg_frame scenario_payload) \<le> length (buffer ?s)"
    by (simp add: example_defs)
  have m: "matchesStart (cfg_frame scenario_payload)
             (take (frame_length (cfg_frame scenario_payload)) (buffer ?s)) \<and>
           matchesEnd (cfg_frame scenario_payload)
             (take (frame_length (cfg_frame scenario_payload)) (buffer ?s))"
    by (simp add: example_defs run_defs)
  have d: "drop (frame_length (cfg_frame scenario_payload)) (buffer ?s) =
      [0xFF, 0xAA, 0x05, 0x00, 0x00, 0x05]"
    by (simp add: example_defs)
  note T = scan_terminates [OF pos, of no_globals ?s "[Chunk scenario_stream, Done]"]
  have t1: "\<exists>r. scan no_globals scenario_payload ?s = Some r"
    using T by (rule conjunct1)
  have t2: "\<exists>r. loop no_globals scenario_payload [Chunk scenario_stream, Done] ?s = Some r"
    using T [THEN conjunct2] by (rule conjunct1)
  note t3 = T [THEN conjunct2, THEN conjunct2, THEN mp, OF len]
  have t4: "length (buffer (snd (scan_body no_globals scenario_payload ?s))) < length scenario_stream"
    using t3 [THEN conjunct1] by (simp only: b)
  have t5: "buffer (snd (scan_body no_globals scenario_payload ?s)) = [0xFF, 0xAA, 0x05, 0x00, 0x00, 0x05]"
    using t3 [THEN conjunct2] by (simp only: m d if_True simp_thms)
  from pos t1 t2 len [unfolded b] t4 t5 show ?thesis
    by (intro conjI)
qed

section \<open>Checksum validation\<close>





section \<open>A formula that throws\<close>

lemma resolutions_append [simp]: "resolutions (xs @ ys) = resolutions xs @ resolutions ys"
  by (induction xs rule: resolutions.induct) simp_all

lemma on_data_calls_append [simp]: "on_data_calls (xs @ ys) = on_data_calls xs @ on_data_calls ys"
  by (induction xs rule: on_data_calls.induct) simp_all

lemma extract_fields_throws:
  "(\<exists>e. extract_fields G fs d = Inl e) \<longleftrightarrow> (\<exists>(k, m)\<in>set fs. \<exists>e. eval_field G m d = Inl e)"
  by (induction fs) (auto split: sum.splits)

text \<open>
  C1, as the code has it. Let the scan have come to a state whose leading window matches
  the markers. If the checksum eval formula, the checksum compare formula, or a field
  formula of the then valid frame throws, the exception leaves the frame handler and the
  scan, and is caught by the handler around the whole read loop of any chunk whose scan
  comes through that state. The frame's bytes are already out of the buffer, no request
  is resolved and no callback gets a reading, the error \<^verbatim>\<open>Read loop error\<close> is reported
  (console, then the error callback if one is set) and not \<^verbatim>\<open>Checksum failed\<close>, and the
  read loop is over: the reads that follow are never made.
\<close>

theorem formula_fault_ends_loop:
  assumes n: "n = frame_length (cfg_frame cfg)" and len: "n \<le> length (buffer t)"
    and win: "win = take n (buffer t)" and t1: "t1 = t\<lparr>buffer := drop n (buffer t)\<rparr>"
    and ms: "matchesStart (cfg_frame cfg) win" and me: "matchesEnd (cfg_frame cfg) win"
    and fault:
      "(evalSafe G (cs_eval (cfg_checksum cfg)) win = Inl e \<and> t2 = t1) \<or>
       (\<exists>v1. evalSafe G (cs_eval (cfg_checksum cfg)) win = Inr v1 \<and>
             evalSafe G (cs_compare (cfg_checksum cfg)) win = Inl e \<and> t2 = t1) \<or>
       (\<exists>v1 v2. evalSafe G (cs_eval (cfg_checksum cfg)) win = Inr v1 \<and>
             evalSafe G (cs_compare (cfg_checksum cfg)) win = Inr v2 \<and> strict_eq v1 v2 \<and>
             extract_fields G (cfg_data cfg) win = Inl e \<and> t2 = announce_raw win t1)"
  shows "handleFrame G cfg win t1 = (Threw e, t2) \<and>
     scan G cfg t = Some (Threw e, t2) \<and>
     (\<forall>s v rs. scan G cfg (s\<lparr>buffer := buffer s @ v\<rparr>) = scan G cfg t \<longrightarrow>
        loop G cfg (Chunk v # rs) s = Some (Ended, handleError (Read_loop_error e) t2)) \<and>
     buffer (handleError (Read_loop_error e) t2) = drop n (buffer t) \<and>
     readQueue (handleError (Read_loop_error e) t2) = readQueue t \<and>
     effects (handleError (Read_loop_error e) t2) =
       effects t2 @ Console_error (Read_loop_error e) #
         (case onError t of Some cb \<Rightarrow> [On_error cb (Read_loop_error e)] | None \<Rightarrow> []) \<and>
     resolutions (effects t2) = resolutions (effects t) \<and>
     on_data_calls (effects t2) = on_data_calls (effects t)"
proof -
  have hf: "handleFrame G cfg win t1 = (Threw e, t2)"
    using fault by (auto simp: handleFrame_def frame_valid_def strict_eq_def)
  have "scan_body G cfg t = (Threw e, t2)"
    using scan_body_match [of cfg t G] ms me hf by (simp add: n win t1)
  then have sc: "scan G cfg t = Some (Threw e, t2)"
    using scan_throw [of cfg t G] len by (simp add: n)
  have lp: "loop G cfg (Chunk v # rs) s = Some (Ended, handleError (Read_loop_error e) t2)"
    if "scan G cfg (s\<lparr>buffer := buffer s @ v\<rparr>) = scan G cfg t" for s v rs
    using that sc by simp
  have t2: "t2 = t1 \<or> t2 = announce_raw win t1"
    using fault by auto
  have buf: "buffer (handleError (Read_loop_error e) t2) = drop n (buffer t)"
    using t2 by (auto simp: t1)
  have q: "readQueue (handleError (Read_loop_error e) t2) = readQueue t"
    using t2 by (auto simp: t1 handleError_def announce_raw_def emit_def Let_def split: option.splits)
  have eff: "effects (handleError (Read_loop_error e) t2) =
       effects t2 @ Console_error (Read_loop_error e) #
         (case onError t of Some cb \<Rightarrow> [On_error cb (Read_loop_error e)] | None \<Rightarrow> [])"
    using t2 by (auto simp: t1 handleError_def announce_raw_def emit_def Let_def split: option.splits)
  have res: "resolutions (effects t2) = resolutions (effects t)"
    using t2 by (auto simp: t1 announce_raw_def emit_def split: option.splits)
  have od: "on_data_calls (effects t2) = on_data_calls (effects t)"
    using t2 by (auto simp: t1 announce_raw_def emit_def split: option.splits)
  from hf sc lp buf q eff res od show ?thesis by blast
qed

theorem formula_fault_ends_loop_witness:
  "extract_fields no_globals (cfg_data broken_field) [0xAA, 0x10, 0x00, 0x00, 0x10] = Inl SyntaxError \<and>
   handleFrame no_globals broken_field [0xAA, 0x10, 0x00, 0x00, 0x10] listening =
     (Threw SyntaxError, listening) \<and>
   scan no_globals broken_field (listening\<lparr>buffer := [0xAA, 0x10, 0x00, 0x00, 0x10]\<rparr>) =
     Some (Threw SyntaxError, listening) \<and>
   loop no_globals broken_field [Chunk [0xAA, 0x10, 0x00, 0x00, 0x10], Chunk [0xAA, 0x05, 0x00, 0x00, 0x05]]
       listening =
     Some (Ended, handleError (Read_loop_error SyntaxError) listening) \<and>
   readQueue (handleError (Read_loop_error SyntaxError) listening) = [7] \<and>
   effects (handleError (Read_loop_error SyntaxError) listening) =
     [Console_error (Read_loop_error SyntaxError), On_error 2 (Read_loop_error SyntaxError)]"
proof -
  let ?w = "[0xAA, 0x10, 0x00, 0x00, 0x10] :: byte list"
  let ?t = "listening\<lparr>buffer := ?w\<rparr>"
  have n: "(5::nat) = frame_length (cfg_frame broken_field)"
    by (simp add: example_defs broken_field_def)
  have len: "5 \<le> length (buffer ?t)"
    by simp
  have win: "?w = take 5 (buffer ?t)"
    by simp
  have t1: "listening = ?t\<lparr>buffer := drop 5 (buffer ?t)\<rparr>"
    by (simp add: listening_def)
  have ms: "matchesStart (cfg_frame broken_field) ?w"
    by (simp add: example_defs broken_field_def run_defs)
  have me: "matchesEnd (cfg_frame broken_field) ?w"
    by (simp add: example_defs broken_field_def run_defs)
  have e1: "evalSafe no_globals (cs_eval (cfg_checksum broken_field)) ?w = Inr (JNum 16)"
    by (simp add: example_defs broken_field_def)
  have e2: "evalSafe no_globals (cs_compare (cfg_checksum broken_field)) ?w = Inr (JNum 16)"
    by (simp add: example_defs broken_field_def bitop_def)
  have ex: "extract_fields no_globals (cfg_data broken_field) ?w = Inl SyntaxError"
    by (simp add: example_defs broken_field_def)
  have eq: "strict_eq (JNum 16) (JNum 16)"
    by (simp add: strict_eq_def)
  have raw: "listening = announce_raw ?w listening"
    by (simp add: listening_def announce_raw_def)
  have fault:
    "(evalSafe no_globals (cs_eval (cfg_checksum broken_field)) ?w = Inl SyntaxError \<and> listening = listening) \<or>
     (\<exists>v1. evalSafe no_globals (cs_eval (cfg_checksum broken_field)) ?w = Inr v1 \<and>
           evalSafe no_globals (cs_compare (cfg_checksum broken_field)) ?w = Inl SyntaxError \<and>
           listening = listening) \<or>
     (\<exists>v1 v2. evalSafe no_globals (cs_eval (cfg_checksum broken_field)) ?w = Inr v1 \<and>
           evalSafe no_globals (cs_compare (cfg_checksum broken_field)) ?w = Inr v2 \<and>
           strict_eq v1 v2 \<and>
           extract_fields no_globals (cfg_data broken_field) ?w = Inl SyntaxError \<and>
           listening = announce_raw ?w listening)"
    using e1 e2 eq ex raw by blast
  note T = formula_fault_ends_loop [OF n len win t1 ms me fault]
  have t1': "handleFrame no_globals broken_field ?w listening = (Threw SyntaxError, listening)"
    using T by (elim conjE)
  have t2': "scan no_globals broken_field ?t = Some (Threw SyntaxError, listening)"
    using T by (elim conjE)
  have same: "scan no_globals broken_field (listening\<lparr>buffer := buffer listening @ ?w\<rparr>) =
      scan no_globals broken_field ?t"
    by (simp add: listening_def)
  have t3': "loop no_globals broken_field [Chunk ?w, Chunk [0xAA, 0x05, 0x00, 0x00, 0x05]] listening =
      Some (Ended, handleError (Read_loop_error SyntaxError) listening)"
    using T [THEN conjunct2, THEN conjunct2, THEN conjunct1, THEN spec, THEN spec, THEN spec,
        THEN mp, OF same] .
  have q: "readQueue ?t = [7]"
    by (simp add: listening_def)
  have t4': "readQueue (handleError (Read_loop_error SyntaxError) listening) = [7]"
    using T [THEN conjunct2, THEN conjunct2, THEN conjunct2, THEN conjunct2, THEN conjunct1]
    by (simp only: q)
  have oe: "onError ?t = Some 2" and ef: "effects listening = []"
    by (simp_all add: listening_def)
  have t5': "effects (handleError (Read_loop_error SyntaxError) listening) =
      [Console_error (Read_loop_error SyntaxError), On_error 2 (Read_loop_error SyntaxError)]"
    using T [THEN conjunct2, THEN conjunct2, THEN conjunct2, THEN conjunct2, THEN conjunct2,
        THEN conjunct1]
    by (simp only: oe ef option.case append_Nil)
  from ex t1' t2' t3' t4' t5' show ?thesis
    by (intro conjI)
qed

text \<open>The claim as the specification has it fails: with a checksum formula that does not
  parse, and with a field formula that does not parse, the first frame ends the read
  loop; no checksum failure is reported and the second chunk is never read.\<close>

theorem formula_fault_counterexample:
  "loop no_globals broken_checksum
       [Chunk [0xAA, 0x10, 0x00, 0x00, 0x10], Chunk [0xAA, 0x05, 0x00, 0x00, 0x05]] listening =
     Some (Ended, listening\<lparr>effects :=
       [Console_error (Read_loop_error SyntaxError), On_error 2 (Read_loop_error SyntaxError)]\<rparr>) \<and>
   loop no_globals broken_field
       [Chunk [0xAA, 0x10, 0x00, 0x00, 0x10], Chunk [0xAA, 0x05, 0x00, 0x00, 0x05]] listening =
     Some (Ended, listening\<lparr>effects :=
       [Console_error (Read_loop_error SyntaxError), On_error 2 (Read_loop_error SyntaxError)]\<rparr>)"
  by (simp add: example_defs broken_field_def broken_checksum_def run_defs)

section \<open>Resynchronisation\<close>

lemma scan_skip_garbage:
  assumes "length f = frame_length (cfg_frame cfg)"
    and "buffer s = g @ f @ rest"
    and "\<forall>j<length g. \<not> (matchesStart (cfg_frame cfg) (take (frame_length (cfg_frame cfg)) (drop j (g @ f @ rest))) \<and>
            matchesEnd (cfg_frame cfg) (take (frame_length (cfg_frame cfg)) (drop j (g @ f @ rest))))"
  shows "scan G cfg s = scan G cfg (s\<lparr>buffer := f @ rest\<rparr>)"
  using assms
proof (induction g arbitrary: s)
  case Nil
  then have "s\<lparr>buffer := f @ rest\<rparr> = s" by (cases s) simp
  then show ?case by simp
next
  case (Cons x g)
  let ?s' = "s\<lparr>buffer := g @ f @ rest\<rparr>"
  have "\<not> (matchesStart (cfg_frame cfg) (take (frame_length (cfg_frame cfg)) (buffer s)) \<and>
            matchesEnd (cfg_frame cfg) (take (frame_length (cfg_frame cfg)) (buffer s)))"
    using Cons.prems(3) [rule_format, of 0] Cons.prems(2) by simp
  then have "scan_body G cfg s = (Returned (), ?s')"
    using scan_body_mismatch [of cfg s G] Cons.prems(2) by simp
  moreover have "frame_length (cfg_frame cfg) \<le> length (buffer s)"
    using Cons.prems(1,2) by simp
  ultimately have "scan G cfg s = scan G cfg ?s'"
    by (rule scan_step [rotated])
  moreover have "\<forall>j<length g. \<not> (matchesStart (cfg_frame cfg) (take (frame_length (cfg_frame cfg)) (drop j (g @ f @ rest))) \<and>
            matchesEnd (cfg_frame cfg) (take (frame_length (cfg_frame cfg)) (drop j (g @ f @ rest))))"
  proof (intro allI impI)
    fix j assume "j < length g"
    then show "\<not> (matchesStart (cfg_frame cfg) (take (frame_length (cfg_frame cfg)) (drop j (g @ f @ rest))) \<and>
            matchesEnd (cfg_frame cfg) (take (frame_length (cfg_frame cfg)) (drop j (g @ f @ rest))))"
      using Cons.prems(3) [rule_format, of "Suc j"] by simp
  qed
  then have "scan G cfg ?s' = scan G cfg (?s'\<lparr>buffer := f @ rest\<rparr>)"
    using Cons.IH [of ?s'] Cons.prems(1) by simp
  ultimately show ?case by simp
qed

text \<open>
  C6, as the code has it. Let the buffer hold K bytes followed by a frame whose markers
  match, where none of the K candidate windows that begin in those K bytes passes both
  marker checks. Then each of the first K passes removes exactly the one leading byte and
  nothing else happens, the pass after them hands the frame to the frame handler with the
  buffer advanced past it, and the scan as a whole is the scan from the frame on. A buffer
  shorter than the frame length is left as it is: no window is taken from it.
\<close>

theorem resync_discards_garbage:
  assumes n: "n = frame_length (cfg_frame cfg)" and f: "length f = n"
    and buf: "buffer s = g @ f @ rest"
    and ms: "matchesStart (cfg_frame cfg) f" and me: "matchesEnd (cfg_frame cfg) f"
    and garbage: "\<forall>j<length g. \<not> (matchesStart (cfg_frame cfg) (take n (drop j (g @ f @ rest))) \<and>
            matchesEnd (cfg_frame cfg) (take n (drop j (g @ f @ rest))))"
  shows "(\<forall>j<length g. scan_body G cfg (s\<lparr>buffer := drop j (g @ f @ rest)\<rparr>) =
             (Returned (), s\<lparr>buffer := drop (Suc j) (g @ f @ rest)\<rparr>)) \<and>
     scan_body G cfg (s\<lparr>buffer := f @ rest\<rparr>) =
       (case handleFrame G cfg f (s\<lparr>buffer := rest\<rparr>) of
          (Threw e, s') \<Rightarrow> (Threw e, s')
        | (Returned ok, s') \<Rightarrow> (Returned (), if ok then s' else handleError Checksum_failed s')) \<and>
     scan G cfg s = scan G cfg (s\<lparr>buffer := f @ rest\<rparr>) \<and>
     (\<forall>t. length (buffer t) < n \<longrightarrow> scan G cfg t = Some (Returned (), t))"
proof -
  have one: "scan_body G cfg (s\<lparr>buffer := drop j (g @ f @ rest)\<rparr>) =
             (Returned (), s\<lparr>buffer := drop (Suc j) (g @ f @ rest)\<rparr>)" if "j < length g" for j
  proof -
    define L where "L = g @ f @ rest"
    have "\<not> (matchesStart (cfg_frame cfg) (take n (drop j L)) \<and>
            matchesEnd (cfg_frame cfg) (take n (drop j L)))"
      using garbage [rule_format, OF that] unfolding L_def .
    then have "scan_body G cfg (s\<lparr>buffer := drop j L\<rparr>) = (Returned (), s\<lparr>buffer := tl (drop j L)\<rparr>)"
      using scan_body_mismatch [of cfg "s\<lparr>buffer := drop j L\<rparr>" G] by (simp add: n)
    moreover have "tl (drop j L) = drop (Suc j) L"
      by (simp add: drop_Suc tl_drop)
    ultimately have "scan_body G cfg (s\<lparr>buffer := drop j L\<rparr>) = (Returned (), s\<lparr>buffer := drop (Suc j) L\<rparr>)"
      by simp
    then show ?thesis unfolding L_def .
  qed
  have acc: "scan_body G cfg (s\<lparr>buffer := f @ rest\<rparr>) =
       (case handleFrame G cfg f (s\<lparr>buffer := rest\<rparr>) of
          (Threw e, s') \<Rightarrow> (Threw e, s')
        | (Returned ok, s') \<Rightarrow> (Returned (), if ok then s' else handleError Checksum_failed s'))"
    using scan_body_match [of cfg "s\<lparr>buffer := f @ rest\<rparr>" G] ms me f by (simp add: n)
  have sk: "scan G cfg s = scan G cfg (s\<lparr>buffer := f @ rest\<rparr>)"
    using scan_skip_garbage [of f cfg s g rest G] f buf garbage by (simp add: n)
  have short: "scan G cfg t = Some (Returned (), t)" if "length (buffer t) < n" for t
    using that scan_short [of t cfg G] by (simp add: n)
  from one acc sk short show ?thesis by blast
qed

theorem resync_discards_garbage_witness:
  "matchesStart (cfg_frame scenario_payload) [0xAA, 0x05, 0x00, 0x00, 0x05] \<and>
   matchesEnd (cfg_frame scenario_payload) [0xAA, 0x05, 0x00, 0x00, 0x05] \<and>
   scan_body no_globals scenario_payload
       (listening\<lparr>buffer := drop 0 ([0x00, 0xFF] @ [0xAA, 0x05, 0x00, 0x00, 0x05] @ [0x01])\<rparr>) =
     (Returned (), listening\<lparr>buffer := drop (Suc 0) ([0x00, 0xFF] @ [0xAA, 0x05, 0x00, 0x00, 0x05] @ [0x01])\<rparr>) \<and>
   scan_body no_globals scenario_payload
       (listening\<lparr>buffer := drop 1 ([0x00, 0xFF] @ [0xAA, 0x05, 0x00, 0x00, 0x05] @ [0x01])\<rparr>) =
     (Returned (), listening\<lparr>buffer := drop (Suc 1) ([0x00, 0xFF] @ [0xAA, 0x05, 0x00, 0x00, 0x05] @ [0x01])\<rparr>) \<and>
   scan no_globals scenario_payload
       (listening\<lparr>buffer := [0x00, 0xFF] @ [0xAA, 0x05, 0x00, 0x00, 0x05] @ [0x01]\<rparr>) =
     scan no_globals scenario_payload (listening\<lparr>buffer := [0xAA, 0x05, 0x00, 0x00, 0x05] @ [0x01]\<rparr>) \<and>
   scan no_globals scenario_payload (listening\<lparr>buffer := [0xAA, 0x05, 0x00]\<rparr>) =
     Some (Returned (), listening\<lparr>buffer := [0xAA, 0x05, 0x00]\<rparr>)"
proof -
  let ?g = "[0x00, 0xFF] :: byte list"
  let ?f = "[0xAA, 0x05, 0x00, 0x00, 0x05] :: byte list"
  let ?r = "[0x01] :: byte list"
  let ?s = "listening\<lparr>buffer := ?g @ ?f @ ?r\<rparr>"
  have n: "(5::nat) = frame_length (cfg_frame scenario_payload)"
    by (simp add: example_defs)
  have f: "length ?f = 5"
    by simp
  have buf: "buffer ?s = ?g @ ?f @ ?r"
    by simp
  have ms: "matchesStart (cfg_frame scenario_payload) ?f"
    by (simp add: example_defs run_defs)
  have me: "matchesEnd (cfg_frame scenario_payload) ?f"
    by (simp add: example_defs run_defs)
  have garbage: "\<forall>j<length ?g. \<not> (matchesStart (cfg_frame scenario_payload) (take 5 (drop j (?g @ ?f @ ?r))) \<and>
            matchesEnd (cfg_frame scenario_payload) (take 5 (drop j (?g @ ?f @ ?r))))"
    by (simp add: example_defs run_defs All_less_Suc)
  note T = resync_discards_garbage [OF n f buf ms me garbage, of no_globals]
  have j0: "(0::nat) < length ?g" and j1: "(1::nat) < length ?g"
    by simp_all
  note a0 = T [THEN conjunct1, THEN spec, THEN mp, OF j0]
  note a1 = T [THEN conjunct1, THEN spec, THEN mp, OF j1]
  have sk: "scan no_globals scenario_payload ?s =
      scan no_globals scenario_payload (?s\<lparr>buffer := ?f @ ?r\<rparr>)"
    using T by (elim conjE)
  have sk': "scan no_globals scenario_payload ?s =
      scan no_globals scenario_payload (listening\<lparr>buffer := ?f @ ?r\<rparr>)"
    using sk by simp
  have a0': "scan_body no_globals scenario_payload (listening\<lparr>buffer := drop 0 (?g @ ?f @ ?r)\<rparr>) =
     (Returned (), listening\<lparr>buffer := drop (Suc 0) (?g @ ?f @ ?r)\<rparr>)"
    using a0 by simp
  have a1': "scan_body no_globals scenario_payload (listening\<lparr>buffer := drop 1 (?g @ ?f @ ?r)\<rparr>) =
     (Returned (), listening\<lparr>buffer := drop (Suc 1) (?g @ ?f @ ?r)\<rparr>)"
    using a1 by simp
  have short: "length (buffer (listening\<lparr>buffer := [0xAA, 0x05, 0x00]\<rparr>)) < 5"
    by simp
  note sh = T [THEN conjunct2, THEN conjunct2, THEN conjunct2, THEN spec, THEN mp, OF short]
  from ms me a0' a1' sk' sh show ?thesis
    by (intro conjI)
qed

text \<open>The claim as the specification has it fails when a window that begins in the
  garbage passes the marker checks. With two-byte frames that start with \<^verbatim>\<open>0xAA\<close>, one
  garbage byte \<^verbatim>\<open>AA\<close> followed by the frame \<^verbatim>\<open>AA 01\<close>: no byte is discarded, the window
  \<^verbatim>\<open>AA AA\<close> is accepted and delivered, and the frame's last byte stays in the buffer.\<close>

theorem resync_counterexample:
  "matchesStart (cfg_frame pair_frames) [0xAA, 0x01] \<and>
   matchesEnd (cfg_frame pair_frames) [0xAA, 0x01] \<and>
   scan_body no_globals pair_frames (listening\<lparr>buffer := [0xAA] @ [0xAA, 0x01]\<rparr>) =
     (Returned (), listening\<lparr>buffer := [0x01], readQueue := [],
        effects := [Resolve 7 [(''b'', JNum 170)], On_data 1 [(''b'', JNum 170)]]\<rparr>) \<and>
   scan no_globals pair_frames (listening\<lparr>buffer := [0xAA] @ [0xAA, 0x01]\<rparr>) =
     Some (Returned (), listening\<lparr>buffer := [0x01], readQueue := [],
        effects := [Resolve 7 [(''b'', JNum 170)], On_data 1 [(''b'', JNum 170)]]\<rparr>)"
  by (simp add: example_defs pair_frames_def run_defs)

section \<open>Delivery of readings\<close>

lemma deliver_readQueue: "readQueue (deliver p s) = tl (readQueue s)"
  by (simp add: deliver_def emit_def Let_def split: list.splits option.splits)

lemma deliver_onData [simp]: "onData (deliver p s) = onData s"
  by (simp add: deliver_def emit_def Let_def split: list.splits option.splits)

lemma readNext_onData [simp]: "onData (readNext r s) = onData s"
  by (simp add: readNext_def)

lemma deliver_effects:
  "effects (deliver p s) =
     effects s @ (case readQueue s of [] \<Rightarrow> [] | resolve # q \<Rightarrow> [Resolve resolve p]) @
       (case onData s of None \<Rightarrow> [] | Some cb \<Rightarrow> [On_data cb p])"
  by (simp add: deliver_def emit_def Let_def split: list.splits option.splits)

lemma run_steps_Nil [simp]: "run_steps [] s = s"
  by (simp add: run_steps_def)

lemma run_steps_Cons [simp]: "run_steps (x # xs) s = run_steps xs (run_step x s)"
  by (simp add: run_steps_def)

lemma run_step_onData [simp]: "onData (run_step x s) = onData s"
  by (cases x) simp_all

lemma run_steps_onData [simp]: "onData (run_steps steps s) = onData s"
  by (induction steps arbitrary: s) simp_all

lemma run_step_effects_mono: "set (effects s) \<subseteq> set (effects (run_step x s))"
  by (cases x) (auto simp: readNext_def deliver_effects)

lemma run_steps_effects_mono: "set (effects s) \<subseteq> set (effects (run_steps steps s))"
proof (induction steps arbitrary: s)
  case Nil
  show ?case by simp
next
  case (Cons x steps)
  show ?case
    using run_step_effects_mono [of s x] Cons [of "run_step x s"] by auto
qed

text \<open>The callback sees every reading, in order, whatever requests come in between.\<close>

lemma on_data_calls_run:
  "on_data_calls (effects (run_steps steps s)) =
     on_data_calls (effects s) @ (case onData s of None \<Rightarrow> [] | Some cb \<Rightarrow> readings steps)"
proof (induction steps arbitrary: s)
  case Nil
  show ?case by (simp split: option.splits)
next
  case (Cons x steps)
  show ?case
  proof (cases x)
    case (Request r)
    then show ?thesis
      using Cons [of "readNext r s"] by (simp add: readNext_def split: option.splits)
  next
    case (Reading p)
    then show ?thesis
      using Cons [of "deliver p s"]
      by (simp add: deliver_effects split: option.splits list.splits)
  qed
qed

text \<open>Readings with no request in between go to the pending requests, oldest first.\<close>

lemma resolutions_readings:
  "resolutions (effects (run_steps (map Reading ps) s)) =
     resolutions (effects s) @ zip (readQueue s) ps"
proof (induction ps arbitrary: s)
  case Nil
  show ?case by simp
next
  case (Cons p ps)
  show ?case
    using Cons [of "deliver p s"]
    by (cases "readQueue s") (simp_all add: deliver_effects deliver_readQueue split: option.splits)
qed

text \<open>A request with \<open>length q\<close> requests before it in the queue is resolved with the
  reading number \<open>length q\<close> (from 0) of those that follow, whatever requests are made
  meanwhile.\<close>

lemma nth_request_resolved:
  assumes "readQueue s = q @ resolve # q'" and "length q < length (readings steps)"
  shows "Resolve resolve (readings steps ! length q) \<in> set (effects (run_steps steps s))"
  using assms
proof (induction steps arbitrary: s q q')
  case Nil
  then show ?case by simp
next
  case (Cons x steps)
  show ?case
  proof (cases x)
    case (Request r)
    have "readQueue (readNext r s) = q @ resolve # (q' @ [r])"
      using Cons.prems(1) by (simp add: readNext_def)
    then show ?thesis
      using Cons.IH [of "readNext r s" q "q' @ [r]"] Cons.prems(2) Request by simp
  next
    case (Reading p)
    show ?thesis
    proof (cases q)
      case Nil
      have "Resolve resolve p \<in> set (effects (deliver p s))"
        using Cons.prems(1) Nil by (simp add: deliver_effects)
      then have "Resolve resolve p \<in> set (effects (run_steps steps (deliver p s)))"
        using run_steps_effects_mono by blast
      then show ?thesis using Reading Nil by simp
    next
      case (Cons a q0)
      have "readQueue (deliver p s) = q0 @ resolve # q'"
        using Cons.prems(1) Cons by (simp add: deliver_readQueue)
      moreover have "length q0 < length (readings steps)"
        using Cons.prems(2) Reading Cons by simp
      ultimately have "Resolve resolve (readings steps ! length q0)
          \<in> set (effects (run_steps steps (deliver p s)))"
        by (rule Cons.IH)
      then show ?thesis using Reading Cons by simp
    qed
  qed
qed

text \<open>
  C9, as the code has it. When a frame passes validation and every field formula
  evaluates, the fields being read into the mapping \<open>p\<close>, the
  frame handler returns true having resolved the oldest pending request, if there is one,
  with \<open>p\<close>, and then called the data callback, if one is subscribed, with the same \<open>p\<close>.
  The queue is first in, first out: a request registered behind N pending ones is
  resolved with reading number N + 1 of the readings that follow its registration,
  whatever requests are registered meanwhile; readings that follow one another resolve
  the pending requests in their order; and the callback receives every reading, in the
  order in which the frames passed.
\<close>

theorem delivery_fifo:
  assumes valid: "frame_valid G cfg d = Inr True"
    and fields: "extract_fields G (cfg_data cfg) d = Inr p"
  shows "handleFrame G cfg d s = (Returned True, deliver p (announce_raw d s)) \<and>
     readQueue (deliver p (announce_raw d s)) = tl (readQueue s) \<and>
     effects (deliver p (announce_raw d s)) =
       effects (announce_raw d s) @
         (case readQueue s of [] \<Rightarrow> [] | resolve # q \<Rightarrow> [Resolve resolve p]) @
         (case onData s of None \<Rightarrow> [] | Some cb \<Rightarrow> [On_data cb p]) \<and>
     (\<forall>steps t resolve. length (readQueue t) < length (readings steps) \<longrightarrow>
        Resolve resolve (readings steps ! length (readQueue t))
          \<in> set (effects (run_steps steps (readNext resolve t)))) \<and>
     (\<forall>ps t. resolutions (effects (run_steps (map Reading ps) t)) =
        resolutions (effects t) @ zip (readQueue t) ps) \<and>
     (\<forall>steps t. on_data_calls (effects (run_steps steps t)) =
        on_data_calls (effects t) @ (case onData t of None \<Rightarrow> [] | Some cb \<Rightarrow> readings steps))"
proof -
  have hf: "handleFrame G cfg d s = (Returned True, deliver p (announce_raw d s))"
    using valid fields by (simp add: handleFrame_def)
  have q: "readQueue (deliver p (announce_raw d s)) = tl (readQueue s)"
    by (simp add: deliver_readQueue announce_raw_def emit_def split: option.splits)
  have eff: "effects (deliver p (announce_raw d s)) =
       effects (announce_raw d s) @
         (case readQueue s of [] \<Rightarrow> [] | resolve # q \<Rightarrow> [Resolve resolve p]) @
         (case onData s of None \<Rightarrow> [] | Some cb \<Rightarrow> [On_data cb p])"
    by (simp add: deliver_effects announce_raw_def emit_def split: option.splits)
  have nth: "Resolve resolve (readings steps ! length (readQueue t))
          \<in> set (effects (run_steps steps (readNext resolve t)))"
    if "length (readQueue t) < length (readings steps)" for steps t resolve
    using nth_request_resolved [of "readNext resolve t" "readQueue t" resolve "[]" steps] that
    by (simp add: readNext_def)
  from hf q eff nth resolutions_readings on_data_calls_run show ?thesis by blast
qed

theorem delivery_fifo_witness:
  "frame_valid no_globals scenario_payload [0xAA, 0x10, 0x00, 0x00, 0x10] = Inr True \<and>
   extract_fields no_globals (cfg_data scenario_payload) [0xAA, 0x10, 0x00, 0x00, 0x10] =
     Inr [(''temp'', JNum 16)] \<and>
   handleFrame no_globals scenario_payload [0xAA, 0x10, 0x00, 0x00, 0x10] listening =
     (Returned True, listening\<lparr>readQueue := [],
        effects := [Resolve 7 [(''temp'', JNum 16)], On_data 1 [(''temp'', JNum 16)]]\<rparr>) \<and>
   Resolve 8 [(''temp'', JNum 5)]
     \<in> set (effects (run_steps [Reading [(''temp'', JNum 16)], Request 9, Reading [(''temp'', JNum 5)]]
                 (readNext 8 listening))) \<and>
   resolutions (effects (run_steps (map Reading [[(''temp'', JNum 16)], [(''temp'', JNum 5)]])
       (readNext 8 listening))) =
     [(7, [(''temp'', JNum 16)]), (8, [(''temp'', JNum 5)])] \<and>
   on_data_calls (effects (run_steps [Reading [(''temp'', JNum 16)], Request 9, Reading [(''temp'', JNum 5)]]
       listening)) =
     [[(''temp'', JNum 16)], [(''temp'', JNum 5)]]"
proof -
  let ?d = "[0xAA, 0x10, 0x00, 0x00, 0x10] :: byte list"
  let ?p = "[(''temp'', JNum 16)] :: parsed"
  let ?p' = "[(''temp'', JNum 5)] :: parsed"
  let ?steps = "[Reading ?p, Request 9, Reading ?p']"
  have valid: "frame_valid no_globals scenario_payload ?d = Inr True"
    by (simp add: example_defs run_defs)
  have fields: "extract_fields no_globals (cfg_data scenario_payload) ?d = Inr ?p"
    by (simp add: example_defs)
  note T = delivery_fifo [OF valid fields, of listening]
  have dl: "deliver ?p (announce_raw ?d listening) =
      listening\<lparr>readQueue := [], effects := [Resolve 7 ?p, On_data 1 ?p]\<rparr>"
    by (simp add: example_defs run_defs)
  have t1: "handleFrame no_globals scenario_payload ?d listening =
      (Returned True, listening\<lparr>readQueue := [], effects := [Resolve 7 ?p, On_data 1 ?p]\<rparr>)"
    using T [THEN conjunct1] by (simp only: dl)
  have lt: "length (readQueue listening) < length (readings ?steps)"
    by (simp add: example_defs)
  have nth: "readings ?steps ! length (readQueue listening) = ?p'"
    by (simp add: example_defs)
  have t4: "Resolve 8 ?p' \<in> set (effects (run_steps ?steps (readNext 8 listening)))"
    using T [THEN conjunct2, THEN conjunct2, THEN conjunct2, THEN conjunct1,
        THEN spec, THEN spec, THEN spec, THEN mp, OF lt, of 8]
    by (simp only: nth)
  have z: "resolutions (effects (readNext 8 listening)) @ zip (readQueue (readNext 8 listening)) [?p, ?p'] =
      [(7, ?p), (8, ?p')]"
    by (simp add: example_defs readNext_def)
  have t5: "resolutions (effects (run_steps (map Reading [?p, ?p']) (readNext 8 listening))) =
      [(7, ?p), (8, ?p')]"
    using T [THEN conjunct2, THEN conjunct2, THEN conjunct2, THEN conjunct2, THEN conjunct1,
        THEN spec, THEN spec, of "[?p, ?p']" "readNext 8 listening"]
    by (simp only: z)
  have o: "on_data_calls (effects listening) @
      (case onData listening of None \<Rightarrow> [] | Some cb \<Rightarrow> readings ?steps) = [?p, ?p']"
    by (simp add: example_defs)
  have t6: "on_data_calls (effects (run_steps ?steps listening)) = [?p, ?p']"
    using T [THEN conjunct2, THEN conjunct2, THEN conjunct2, THEN conjunct2, THEN conjunct2,
        THEN spec, THEN spec, of ?steps listening]
    by (simp only: o)
  from valid fields t1 t4 t5 t6 show ?thesis
    by (intro conjI)
qed

text \<open>The claim as the specification has it fails for a frame that passes validation
  and has a field formula that throws: with a request pending and a callback subscribed,
  the frame handler throws before the delivery, the request stays in the queue, the
  callback is not called, and the read loop ends, so that no later frame is delivered
  either.\<close>

theorem valid_frame_not_delivered:
  "frame_valid no_globals broken_field [0xAA, 0x10, 0x00, 0x00, 0x10] = Inr True \<and>
   readQueue listening = [7] \<and> onData listening = Some 1 \<and>
   handleFrame no_globals broken_field [0xAA, 0x10, 0x00, 0x00, 0x10] listening =
     (Threw SyntaxError, listening) \<and>
   loop no_globals broken_field
       [Chunk [0xAA, 0x10, 0x00, 0x00, 0x10], Chunk [0xAA, 0x05, 0x00, 0x00, 0x05]] listening =
     Some (Ended, listening\<lparr>effects :=
       [Console_error (Read_loop_error SyntaxError), On_error 2 (Read_loop_error SyntaxError)]\<rparr>) \<and>
   resolutions [Console_error (Read_loop_error SyntaxError), On_error 2 (Read_loop_error SyntaxError)] = [] \<and>
   on_data_calls [Console_error (Read_loop_error SyntaxError), On_error 2 (Read_loop_error SyntaxError)] = []"
  by (simp add: example_defs broken_field_def run_defs)

section \<open>Disconnecting\<close>

lemma disconnect_Returned:
  assumes "disconnect cancel_ok close_ok s = (Returned u, s')"
  shows "commandInterval s' = None \<and> reader s' = None \<and> serial_port s' = None \<and>
     buffer s' = buffer s \<and> readQueue s' = readQueue s \<and>
     onData s' = onData s \<and> onError s' = onError s \<and> onRawFrame s' = onRawFrame s \<and>
     effects s' = effects s @
       (case commandInterval s of Some t \<Rightarrow> [Clear_interval t] | None \<Rightarrow> []) @
       (case reader s of
          Some r \<Rightarrow> Reader_cancel r # (if cancel_ok then [Reader_release_lock r] else [])
        | None \<Rightarrow> []) @
       (case serial_port s of Some p \<Rightarrow> [Port_close p] | None \<Rightarrow> [])"
  using assms
  by (auto simp: disconnect_def emit_def Let_def split: option.splits if_splits)

text \<open>
  C5, as the code has it. When \<^verbatim>\<open>disconnect\<close> returns, the periodic-command timer has
  been cleared if there was one, the reader has been cancelled and dropped, and the port
  has been closed and dropped; the decode buffer and the queue of pending requests are as
  they were. When \<^verbatim>\<open>PolluSens.disconnectAndCleanup\<close> returns, the buffer and the queue
  are empty as well and the three callbacks are unset; no pending request has been
  resolved on the way.
\<close>

theorem disconnect_releases:
  "(disconnect cancel_ok close_ok s = (Returned (), s') \<longrightarrow>
      commandInterval s' = None \<and> reader s' = None \<and> serial_port s' = None \<and>
      buffer s' = buffer s \<and> readQueue s' = readQueue s \<and>
      effects s' = effects s @
        (case commandInterval s of Some t \<Rightarrow> [Clear_interval t] | None \<Rightarrow> []) @
        (case reader s of
           Some r \<Rightarrow> Reader_cancel r # (if cancel_ok then [Reader_release_lock r] else [])
         | None \<Rightarrow> []) @
        (case serial_port s of Some p \<Rightarrow> [Port_close p] | None \<Rightarrow> [])) \<and>
   (disconnectAndCleanup cancel_ok close_ok (Some s) = (Returned (), Some s'') \<longrightarrow>
      commandInterval s'' = None \<and> reader s'' = None \<and> serial_port s'' = None \<and>
      buffer s'' = [] \<and> readQueue s'' = [] \<and>
      onData s'' = None \<and> onError s'' = None \<and> onRawFrame s'' = None \<and>
      resolutions (effects s'') = resolutions (effects s))"
proof -
  have a: "commandInterval s'' = None \<and> reader s'' = None \<and> serial_port s'' = None \<and>
      buffer s'' = [] \<and> readQueue s'' = [] \<and>
      onData s'' = None \<and> onError s'' = None \<and> onRawFrame s'' = None \<and>
      resolutions (effects s'') = resolutions (effects s)"
    if h: "disconnectAndCleanup cancel_ok close_ok (Some s) = (Returned (), Some s'')"
  proof -
    obtain oc t where d: "disconnect cancel_ok close_ok s = (oc, t)"
      by (cases "disconnect cancel_ok close_ok s")
    with h have oc: "oc = Returned ()"
      and s'': "s'' = t\<lparr>onData := None, onRawFrame := None, onError := None, readQueue := [], buffer := []\<rparr>"
      by (auto simp: disconnectAndCleanup_def split: outcome.splits)
    from disconnect_Returned [OF d [unfolded oc]] show ?thesis
      by (auto simp: s'' split: option.splits)
  qed
  show ?thesis
    using disconnect_Returned [of cancel_ok close_ok s "()" s'] a by blast
qed

theorem disconnect_releases_witness:
  "disconnect True True (listening\<lparr>buffer := [0xAA, 0x10], commandInterval := Some 3\<rparr>) =
     (Returned (), listening\<lparr>serial_port := None, reader := None, buffer := [0xAA, 0x10],
        effects := [Clear_interval 3, Reader_cancel 0, Reader_release_lock 0, Port_close 0]\<rparr>) \<and>
   readQueue (listening\<lparr>serial_port := None, reader := None, buffer := [0xAA, 0x10],
        effects := [Clear_interval 3, Reader_cancel 0, Reader_release_lock 0, Port_close 0]\<rparr>) =
     readQueue (listening\<lparr>buffer := [0xAA, 0x10], commandInterval := Some 3\<rparr>) \<and>
   disconnectAndCleanup True True (Some (listening\<lparr>buffer := [0xAA, 0x10], commandInterval := Some 3\<rparr>)) =
     (Returned (), Some (listening\<lparr>serial_port := None, reader := None, buffer := [],
        readQueue := [], onData := None, onError := None,
        effects := [Clear_interval 3, Reader_cancel 0, Reader_release_lock 0, Port_close 0]\<rparr>)) \<and>
   readQueue (listening\<lparr>serial_port := None, reader := None, buffer := [],
        readQueue := [], onData := None, onError := None,
        effects := [Clear_interval 3, Reader_cancel 0, Reader_release_lock 0, Port_close 0]\<rparr>) = []"
proof -
  let ?s = "listening\<lparr>buffer := [0xAA, 0x10], commandInterval := Some 3\<rparr>"
  let ?s' = "listening\<lparr>serial_port := None, reader := None, buffer := [0xAA, 0x10],
        effects := [Clear_interval 3, Reader_cancel 0, Reader_release_lock 0, Port_close 0]\<rparr>"
  let ?s'' = "listening\<lparr>serial_port := None, reader := None, buffer := [],
        readQueue := [], onData := None, onError := None,
        effects := [Clear_interval 3, Reader_cancel 0, Reader_release_lock 0, Port_close 0]\<rparr>"
  have d: "disconnect True True ?s = (Returned (), ?s')"
    by (simp add: example_defs disconnect_def emit_def)
  have c: "disconnectAndCleanup True True (Some ?s) = (Returned (), Some ?s'')"
    by (simp add: example_defs disconnectAndCleanup_def disconnect_def emit_def)
  note T = disconnect_releases [of True True ?s ?s' ?s'']
  have t1: "readQueue ?s' = readQueue ?s"
    using T [THEN conjunct1, THEN mp, OF d] by (elim conjE)
  have t2: "readQueue ?s'' = []"
    using T [THEN conjunct2, THEN mp, OF c] by (elim conjE)
  from d t1 c t2 show ?thesis
    by (intro conjI)
qed

text \<open>The claim as the specification has it fails for \<^verbatim>\<open>disconnect\<close> itself, the only
  way to end a session of \<^verbatim>\<open>PolluSensSerial\<close>: the two bytes in the buffer and the pending
  request 7 are still there when it has returned.\<close>

theorem disconnect_counterexample:
  "disconnect True True (listening\<lparr>buffer := [0xAA, 0x10], commandInterval := Some 3\<rparr>) =
     (Returned (),
      \<lparr> serial_port = None, reader = None, buffer = [0xAA, 0x10], commandInterval = None,
        readQueue = [7], onData = Some 1, onError = Some 2, onRawFrame = None,
        effects = [Clear_interval 3, Reader_cancel 0, Reader_release_lock 0, Port_close 0] \<rparr>)"
  by (simp add: example_defs disconnect_def emit_def)

section \<open>The resolver\<close>

text \<open>What \<^verbatim>\<open>resolveInheritance\<close> does when \<^verbatim>\<open>map\<close> calls it, with the index of the entry
  as its second argument.\<close>

lemma resolve_Array_index:
  "resolveInheritance nameMap s (Array_index i) =
     (if name s = None \<or> name s = Some [] then ([], Inr None)
      else if inherits_from s = None \<or> inherits_from s = Some [] then ([], Inr (Some s))
      else ([], Inl TypeError))"
  by (subst resolveInheritance.simps) (simp split: option.splits)

lemma resolve_each_crash:
  assumes "s \<in> set rawSensors" "name s = Some n" "n \<noteq> []" "inherits_from s = Some b" "b \<noteq> []"
  shows "resolve_each nameMap i rawSensors = ([], Inl TypeError)"
  using assms(1)
proof (induction rawSensors arbitrary: i)
  case Nil
  then show ?case by simp
next
  case (Cons x xs)
  show ?case
  proof (cases "x = s")
    case True
    then show ?thesis
      using assms(2-5) by (simp add: resolve_Array_index)
  next
    case False
    then have "resolve_each nameMap (Suc i) xs = ([], Inl TypeError)"
      using Cons by simp
    then show ?thesis
      by (simp add: resolve_Array_index)
  qed
qed

text \<open>Whatever the document, one named entry with a non-empty \<^verbatim>\<open>inherits_from\<close> makes
  \<^verbatim>\<open>loadConfig\<close> fail with the TypeError of \<^verbatim>\<open>stack.includes\<close>, and without a warning.\<close>

lemma loadConfig_crash:
  assumes "s \<in> set rawSensors" "name s = Some n" "n \<noteq> []" "inherits_from s = Some b" "b \<noteq> []"
  shows "loadConfig rawSensors sensorName = ([], Inl TypeError)"
  using resolve_each_crash [OF assms] by (simp add: loadConfig_def)




text \<open>The body of \<^verbatim>\<open>resolveInheritance\<close> when it is entered with an array of ancestors,
  as its recursive call enters it.\<close>

lemma resolve_merge:
  assumes "name s = Some n" "n \<noteq> []" "inherits_from s = Some b" "b \<noteq> []"
    and "n \<notin> set st" and "lookup_name nameMap b = Entry base"
    and "resolveInheritance nameMap base (Names (st @ [n])) = (ws, Inr (Some resolvedBase))"
  shows "resolveInheritance nameMap s (Names st) = (ws, Inr (Some (merged s resolvedBase)))"
  using assms by (subst resolveInheritance.simps) simp

lemma resolve_cycle:
  assumes "name s = Some n" "n \<noteq> []" "inherits_from s = Some b" "b \<noteq> []" "n \<in> set st"
  shows "resolveInheritance nameMap s (Names st) = ([Circular_inheritance (st @ [n])], Inr (Some s))"
  using assms by (subst resolveInheritance.simps) simp

lemma resolve_plain:
  assumes "name s = Some n" "n \<noteq> []" "inherits_from s = None \<or> inherits_from s = Some []"
  shows "resolveInheritance nameMap s stack = ([], Inr (Some s))"
  using assms by (subst resolveInheritance.simps) auto

text \<open>Two entries that name each other as base, when the resolver is entered with an
  empty array of ancestors, as the default of its parameter has it: only the entry met
  again in the recursion falls back to its own fields.\<close>

lemma cycle_pair_merged:
  assumes a: "lookup_name nameMap A = Entry a" "name a = Some A" "inherits_from a = Some B"
    and b: "lookup_name nameMap B = Entry b" "name b = Some B" "inherits_from b = Some A"
    and ne: "A \<noteq> []" "B \<noteq> []" "A \<noteq> B"
  shows "resolveInheritance nameMap a (Names []) =
      ([Circular_inheritance [A, B, A]], Inr (Some (merged a (merged b a))))"
proof -
  have a1: "resolveInheritance nameMap a (Names [A, B]) =
      ([Circular_inheritance [A, B, A]], Inr (Some a))"
    using resolve_cycle [of a A B "[A, B]" nameMap] a ne by simp
  have a2: "resolveInheritance nameMap b (Names [A]) =
      ([Circular_inheritance [A, B, A]], Inr (Some (merged b a)))"
    using resolve_merge [of b B A "[A]" nameMap a] a b ne a1 by simp
  show ?thesis
    using resolve_merge [of a A B "[]" nameMap b] a b ne a2 by simp
qed

text \<open>The spread of two objects, key by key: the entry's key wins, the base's is kept
  otherwise.\<close>

lemma map_of_insert_index:
  "map_of al k = None \<Longrightarrow> map_of (insert_index i (k, v) al) = (map_of al)(k \<mapsto> v)"
proof (induction al)
  case Nil
  show ?case by simp
next
  case (Cons x al)
  obtain k' v' where x: "x = (k', v')" by (cases x)
  from Cons.prems have ne: "k' \<noteq> k" and rest: "map_of al k = None"
    by (auto simp: x split: if_splits)
  show ?case
    using Cons.IH [OF rest] ne by (auto simp: x fun_upd_twist split: option.splits)
qed

lemma map_of_append_new:
  "map_of al k = None \<Longrightarrow> map_of (al @ [(k, v)]) = (map_of al)(k \<mapsto> v)"
  by (auto simp: map_add_def fun_eq_iff split: option.splits)

lemma map_of_obj_set: "map_of (obj_set k v al) = (map_of al)(k \<mapsto> v)"
proof (cases "map_of al k")
  case None
  then show ?thesis
    by (cases "array_index k") (simp_all add: obj_set_def map_of_insert_index map_of_append_new del: map_of_append)
next
  case (Some w)
  then show ?thesis
    by (simp add: obj_set_def fun_eq_iff update_conv)
qed

lemma map_of_fold_obj_set:
  "map_of (fold (\<lambda>(k, v). obj_set k v) c b) = map_of b ++ map_of (rev c)"
proof (induction c arbitrary: b)
  case Nil
  show ?case by simp
next
  case (Cons x c)
  obtain k v where x: "x = (k, v)" by (cases x)
  have "map_of (fold (\<lambda>(k, v). obj_set k v) (x # c) b) =
      map_of (obj_set k v b) ++ map_of (rev c)"
    using Cons [of "obj_set k v b"] by (simp add: x)
  also have "\<dots> = map_of b ++ map_of (rev (x # c))"
    by (simp add: x map_of_obj_set map_add_upd_left fun_upd_def map_add_def fun_eq_iff
        split: option.splits)
  finally show ?case .
qed

lemma spread_lookup:
  "map_of (spread (Some b) (Some c)) k =
     (case map_of (rev c) k of Some v \<Rightarrow> Some v | None \<Rightarrow> map_of (rev b) k)"
  by (simp add: spread_def map_of_fold_obj_set map_add_def)

lemma spread_inherits:
  "map_of (spread (Some b) None) k = map_of (rev b) k"
  by (simp add: spread_def map_of_fold_obj_set)

lemma merged_fields:
  "name (merged s rb) = name s \<and> inherits_from (merged s rb) = None \<and>
   command (merged s rb) = (case command s of Some c \<Rightarrow> Some c | None \<Rightarrow> command rb) \<and>
   send_cmd_period (merged s rb) =
     (case send_cmd_period s of Some c \<Rightarrow> Some c | None \<Rightarrow> send_cmd_period rb) \<and>
   port (merged s rb) = Some (spread (port rb) (port s)) \<and>
   frame (merged s rb) = Some (spread (frame rb) (frame s)) \<and>
   checksum (merged s rb) = Some (spread (checksum rb) (checksum s)) \<and>
   data (merged s rb) = Some (spread (data rb) (data s))"
  by (simp add: merged_def nullish_def)

lemmas resolver_defs =
  build_nameMap_def lookup_name_def merged_def spread_def obj_set_def nullish_def
  array_index_def digit_of_def

text \<open>
  C8. The claim describes the descriptor that the merge builds. \<^verbatim>\<open>loadConfig\<close> never
  builds one: \<^verbatim>\<open>rawSensors.map(resolveInheritance)\<close> passes the index of each entry as the
  ancestor stack, and for the child, which names its base, \<^verbatim>\<open>stack.includes\<close> throws a
  TypeError that ends \<^verbatim>\<open>loadConfig\<close>. Entered with an array of ancestors, the same body
  returns the merged descriptor that the claim describes.
\<close>

theorem inheritance_load_crashes:
  "loadConfig [parent, child] None = ([], Inl TypeError) \<and>
   resolveInheritance (build_nameMap [parent, child]) child (Array_index 1) = ([], Inl TypeError) \<and>
   resolveInheritance (build_nameMap [parent, child]) child (Names []) =
     ([], Inr (Some
        \<lparr> name = Some ''C'', inherits_from = None, command = Some ''01 03'',
          send_cmd_period = Some 2, port = Some [(''baudRate'', JS_num 9600)],
          frame = Some [(''length'', JS_num 7), (''startByte'', JS_str ''0xAA''),
                        (''endByte'', JS_str ''none'')],
          checksum = Some [(''eval'', JS_str ''data[4]''),
                           (''compare'', JS_str ''data[1]^data[2]^data[3]'')],
          data = Some [(''temp'', JS_str ''data[1]''), (''hum'', JS_str ''data[2]'')] \<rparr>))"
  by (simp add: loadConfig_def parent_def child_def resolveInheritance.simps resolver_defs)

text \<open>
  C3. The claim describes what the resolver does with two entries that name each other
  as base. \<^verbatim>\<open>loadConfig\<close> never comes to the detection of the cycle: whatever else the
  document holds, the first of the two entries that \<^verbatim>\<open>map\<close> comes to is resolved with its
  index as the ancestor stack, \<^verbatim>\<open>stack.includes\<close> throws a TypeError, and the load ends
  with that exception, with no warning and no descriptor for either entry.
\<close>

theorem cycle_load_crashes:
  assumes "a \<in> set rawSensors" and "b \<in> set rawSensors"
    and "name a = Some A" and "inherits_from a = Some B"
    and "name b = Some B" and "inherits_from b = Some A"
    and "A \<noteq> []" and "B \<noteq> []"
  shows "loadConfig rawSensors sensorName = ([], Inl TypeError) \<and>
     resolve_each (build_nameMap rawSensors) 0 rawSensors = ([], Inl TypeError) \<and>
     resolveInheritance (build_nameMap rawSensors) a (Array_index i) = ([], Inl TypeError) \<and>
     resolveInheritance (build_nameMap rawSensors) b (Array_index j) = ([], Inl TypeError)"
  using assms loadConfig_crash [of a rawSensors A B sensorName]
    resolve_each_crash [of a rawSensors A B "build_nameMap rawSensors" 0]
  by (simp add: resolve_Array_index)

theorem cycle_load_crashes_witness:
  "cyc_a \<in> set [cyc_a, cyc_b] \<and> cyc_b \<in> set [cyc_a, cyc_b] \<and>
   name cyc_a = Some ''A'' \<and> inherits_from cyc_a = Some ''B'' \<and>
   name cyc_b = Some ''B'' \<and> inherits_from cyc_b = Some ''A'' \<and>
   loadConfig [cyc_a, cyc_b] None = ([], Inl TypeError) \<and>
   resolve_each (build_nameMap [cyc_a, cyc_b]) 0 [cyc_a, cyc_b] = ([], Inl TypeError) \<and>
   resolveInheritance (build_nameMap [cyc_a, cyc_b]) cyc_a (Array_index 0) = ([], Inl TypeError) \<and>
   resolveInheritance (build_nameMap [cyc_a, cyc_b]) cyc_b (Array_index 1) = ([], Inl TypeError)"
proof -
  have ma: "cyc_a \<in> set [cyc_a, cyc_b]" and mb: "cyc_b \<in> set [cyc_a, cyc_b]"
    by simp_all
  have na: "name cyc_a = Some ''A''" and ia: "inherits_from cyc_a = Some ''B''"
    by (simp_all add: cyc_a_def)
  have nb: "name cyc_b = Some ''B''" and ib: "inherits_from cyc_b = Some ''A''"
    by (simp_all add: cyc_b_def)
  have ne: "''A'' \<noteq> []" "''B'' \<noteq> []"
    by simp_all
  note T = cycle_load_crashes [OF ma mb na ia nb ib ne, of None 0 1]
  from ma mb na ia nb ib T [THEN conjunct1] T [THEN conjunct2, THEN conjunct1]
    T [THEN conjunct2, THEN conjunct2, THEN conjunct1]
    T [THEN conjunct2, THEN conjunct2, THEN conjunct2]
  show ?thesis
    by (intro conjI)
qed



section \<open>The scenario of the specification\<close>

text \<open>
  C2, as the code has it. The evaluator hands the frame's bytes to a formula under the
  name \<^verbatim>\<open>data\<close>, read as \<^verbatim>\<open>data[i]\<close>; \<^verbatim>\<open>window\<close> is not a name for them. For the
  descriptor with frame length 5, start byte \<^verbatim>\<open>0xAA\<close>, no end marker, checksum eval
  \<^verbatim>\<open>data[4]\<close> and data \<^verbatim>\<open>{temp: data[1]}\<close>, fed the bytes
  \<^verbatim>\<open>AA 10 00 00 10 FF AA 05 00 00 05\<close>, on any host:
  \<^item> with compare \<^verbatim>\<open>data[0]^data[1]^data[2]^data[3]\<close> the first candidate fails the
    checksum, since the start byte is part of the sum (\<^verbatim>\<open>0xAA ^ 0x10 = 0xBA\<close>, not
    \<^verbatim>\<open>0x10\<close>); so does the second, and nothing is delivered;
  \<^item> with compare \<^verbatim>\<open>data[1]^data[2]^data[3]\<close> the first frame is delivered as
    \<^verbatim>\<open>{temp: 16}\<close> to the pending request and to the callback, the byte \<^verbatim>\<open>FF\<close> is
    dropped by itself, and the second frame is delivered as \<^verbatim>\<open>{temp: 5}\<close>.
\<close>

theorem data_scenario:
  "evalSafe G (Formula (byte_at ''data'' 1)) [0xAA, 0x10, 0x00, 0x00, 0x10] = Inr (JNum 16) \<and>
   loop G scenario_data [Chunk scenario_stream] listening =
     Some (Awaiting_read, listening\<lparr>
        effects := [Console_error Checksum_failed, On_error 2 Checksum_failed,
                    Console_error Checksum_failed, On_error 2 Checksum_failed]\<rparr>) \<and>
   scan_body G scenario_payload (listening\<lparr>buffer := scenario_stream\<rparr>) =
     (Returned (), listening\<lparr>buffer := [0xFF, 0xAA, 0x05, 0x00, 0x00, 0x05], readQueue := [],
        effects := [Resolve 7 [(''temp'', JNum 16)], On_data 1 [(''temp'', JNum 16)]]\<rparr>) \<and>
   scan_body G scenario_payload (listening\<lparr>buffer := [0xFF, 0xAA, 0x05, 0x00, 0x00, 0x05]\<rparr>) =
     (Returned (), listening\<lparr>buffer := [0xAA, 0x05, 0x00, 0x00, 0x05]\<rparr>) \<and>
   loop G scenario_payload [Chunk scenario_stream] listening =
     Some (Awaiting_read, listening\<lparr>readQueue := [],
        effects := [Resolve 7 [(''temp'', JNum 16)], On_data 1 [(''temp'', JNum 16)],
                    On_data 1 [(''temp'', JNum 5)]]\<rparr>)"
  by (simp add: example_defs scenario_data_def run_defs)

text \<open>The claim as the specification has it fails. With the formulas over \<^verbatim>\<open>window\<close>, a
  host without that global ends the read loop at the first frame with a ReferenceError;
  a browser evaluates \<^verbatim>\<open>window[4]\<close> to \<^verbatim>\<open>undefined\<close> and the sum to 0, and both
  frames fail the checksum. Nothing is delivered in either.\<close>

theorem window_scenario_counterexample:
  "evalSafe no_globals (Formula (byte_at ''window'' 1)) [0xAA, 0x10, 0x00, 0x00, 0x10] =
     Inl (ReferenceError ''window'') \<and>
   evalSafe browser_globals (Formula (byte_at ''window'' 1)) [0xAA, 0x10, 0x00, 0x00, 0x10] =
     Inr JUndefined \<and>
   loop no_globals scenario_window [Chunk scenario_stream] listening =
     Some (Ended, listening\<lparr>buffer := [0xFF, 0xAA, 0x05, 0x00, 0x00, 0x05],
        effects := [Console_error (Read_loop_error (ReferenceError ''window'')),
                    On_error 2 (Read_loop_error (ReferenceError ''window''))]\<rparr>) \<and>
   loop browser_globals scenario_window [Chunk scenario_stream] listening =
     Some (Awaiting_read, listening\<lparr>
        effects := [Console_error Checksum_failed, On_error 2 Checksum_failed,
                    Console_error Checksum_failed, On_error 2 Checksum_failed]\<rparr>)"
  by (simp add: example_defs scenario_window_def browser_globals_def run_defs)

end
